theory Spec2Isabelle
  imports Main "HOL-Library.Word"
begin

section \<open>JavaScript strings and values\<close>

text \<open>
  A JavaScript string is a sequence of 16-bit code units. String constants of the source are
  written \<open>js ''...''\<close>, which maps each ASCII character to its code unit.
\<close>

type_synonym code_unit = "16 word"
type_synonym jsstring = "code_unit list"

definition js :: "string \<Rightarrow> jsstring" where
  "js s = map of_char s"

text \<open>
  The values that \<open>JSON.parse\<close> can return, together with \<open>undefined\<close>, which is what reading
  an absent property gives. A number keeps the text of its literal: no schema of this program
  accepts a number or inspects its value. An object keeps its members in source order; a later
  member with the same key overrides an earlier one when the property is read.
\<close>

datatype jsval =
    JUndefined
  | JNull
  | JBool bool
  | JNum jsstring
  | JStr jsstring
  | JArr "jsval list"
  | JObj "(jsstring \<times> jsval) list"

definition get_prop :: "(jsstring \<times> jsval) list \<Rightarrow> jsstring \<Rightarrow> jsval" where
  "get_prop kvs k = (case map_of (rev kvs) k of None \<Rightarrow> JUndefined | Some v \<Rightarrow> v)"

section \<open>The data model: \<open>z.infer<typeof FormSchema>\<close>\<close>

record Model =
  apiName :: jsstring
  uiName :: jsstring
  supportsTools :: bool

record Provider =
  provider :: jsstring
  apiKeyEnvVar :: jsstring
  baseUrl :: "jsstring option"
  models :: "Model list"

record FormValues =
  providers :: "Provider list"

text \<open>The typed values as the JavaScript objects they are (an absent \<open>baseUrl\<close> is no property).\<close>

definition js_of_Model :: "Model \<Rightarrow> jsval" where
  "js_of_Model m =
     JObj [(js ''apiName'', JStr (apiName m)),
           (js ''uiName'', JStr (uiName m)),
           (js ''supportsTools'', JBool (supportsTools m))]"

definition js_of_Provider :: "Provider \<Rightarrow> jsval" where
  "js_of_Provider p =
     JObj ([(js ''provider'', JStr (provider p)),
            (js ''apiKeyEnvVar'', JStr (apiKeyEnvVar p))]
           @ (case baseUrl p of None \<Rightarrow> [] | Some u \<Rightarrow> [(js ''baseUrl'', JStr u)])
           @ [(js ''models'', JArr (map js_of_Model (models p)))])"

definition js_of_providers :: "Provider list \<Rightarrow> jsval" where
  "js_of_providers ps = JArr (map js_of_Provider ps)"

definition js_of_FormValues :: "FormValues \<Rightarrow> jsval" where
  "js_of_FormValues f = JObj [(js ''providers'', js_of_providers (providers f))]"

section \<open>The schema library (zod)\<close>

text \<open>
  An issue has a code, the path of the offending field and a message. The message is
  \<open>Some\<close> text where the source passes one to the check and \<open>None\<close> where the library's
  default text applies.
\<close>

datatype path_elem = Key jsstring | Idx nat

datatype issue_code = invalid_type | too_small | invalid_string | invalid_literal | invalid_union

datatype issue =
  Issue (issue_code: issue_code) (issue_path: "path_elem list") (issue_message: "jsstring option")

text \<open>
  The result of parsing with a schema, as in the synchronous parser of zod 3: a value (status
  valid), or the issues found with status dirty (a check failed on a value of the right type)
  or aborted (wrong type). Every schema visits all properties and elements, so that the issues
  of the whole tree are collected in one pass; only a valid result is a success. An object
  schema keeps the properties of its shape, in the order of the shape, and drops the others.
\<close>

datatype 'a zres = Valid 'a | Dirty "issue list" | Aborted "issue list"

type_synonym 'a schema = "path_elem list \<Rightarrow> jsval \<Rightarrow> 'a zres"

fun zissues :: "'a zres \<Rightarrow> issue list" where
  "zissues (Valid x) = []"
| "zissues (Dirty is) = is"
| "zissues (Aborted is) = is"

fun is_aborted :: "'a zres \<Rightarrow> bool" where
  "is_aborted (Aborted is) = True"
| "is_aborted r = False"

fun is_valid :: "'a zres \<Rightarrow> bool" where
  "is_valid (Valid x) = True"
| "is_valid r = False"

text \<open>Merging the results of the parts of an object or array: all issues are kept, in order.\<close>

fun zap :: "('a \<Rightarrow> 'b) zres \<Rightarrow> 'a zres \<Rightarrow> 'b zres" where
  "zap (Valid f) (Valid x) = Valid (f x)"
| "zap rf rx =
     (if is_aborted rf \<or> is_aborted rx then Aborted (zissues rf @ zissues rx)
      else Dirty (zissues rf @ zissues rx))"

definition field :: "'a schema \<Rightarrow> path_elem list \<Rightarrow> (jsstring \<times> jsval) list \<Rightarrow> jsstring \<Rightarrow> 'a zres" where
  "field s p kvs k = s (p @ [Key k]) (get_prop kvs k)"

text \<open>\<open>z.string().min(1, msg)\<close>\<close>

definition z_string_min1 :: "jsstring \<Rightarrow> jsstring schema" where
  "z_string_min1 msg p v =
     (case v of
        JStr s \<Rightarrow> if length s < 1 then Dirty [Issue too_small p (Some msg)] else Valid s
      | _ \<Rightarrow> Aborted [Issue invalid_type p None])"

text \<open>\<open>z.boolean()\<close>\<close>

definition z_boolean :: "bool schema" where
  "z_boolean p v =
     (case v of JBool b \<Rightarrow> Valid b | _ \<Rightarrow> Aborted [Issue invalid_type p None])"

text \<open>\<open>z.array(el)\<close>, with the optional \<open>.min(n, msg)\<close>: the length check, then every element.\<close>

fun z_elements :: "'a schema \<Rightarrow> path_elem list \<Rightarrow> nat \<Rightarrow> jsval list \<Rightarrow> 'a list zres" where
  "z_elements el p i [] = Valid []"
| "z_elements el p i (x # xs) =
     zap (zap (Valid (#)) (el (p @ [Idx i]) x)) (z_elements el p (Suc i) xs)"

definition z_array :: "(nat \<times> jsstring) option \<Rightarrow> 'a schema \<Rightarrow> 'a list schema" where
  "z_array minLength el p v =
     (case v of
        JArr xs \<Rightarrow>
          zap (zap (Valid (\<lambda>_ ys. ys))
                 (case minLength of
                    None \<Rightarrow> Valid ()
                  | Some (n, msg) \<Rightarrow>
                      if length xs < n then Dirty [Issue too_small p (Some msg)] else Valid ()))
              (z_elements el p 0 xs)
      | _ \<Rightarrow> Aborted [Issue invalid_type p None])"

subsection \<open>The URL check\<close>

text \<open>
  \<open>z.string().url()\<close> accepts a string when \<open>new URL(s)\<close> does not throw. The URL parser
  of the platform first strips leading and trailing C0 controls and spaces and drops every tab
  and newline, then reads the scheme; without a base URL, an input with no scheme fails. The
  states after the scheme (authority, host, port, path, query, fragment) belong to the platform
  and are the parameter \<open>U\<close>, given the lower-cased scheme and the input after the colon.
\<close>

definition is_ascii_alpha :: "code_unit \<Rightarrow> bool" where
  "is_ascii_alpha c = ((0x41 \<le> c \<and> c \<le> 0x5A) \<or> (0x61 \<le> c \<and> c \<le> 0x7A))"

definition is_ascii_digit :: "code_unit \<Rightarrow> bool" where
  "is_ascii_digit c = (0x30 \<le> c \<and> c \<le> 0x39)"

definition ascii_lower :: "code_unit \<Rightarrow> code_unit" where
  "ascii_lower c = (if 0x41 \<le> c \<and> c \<le> 0x5A then c + 0x20 else c)"

definition is_c0_or_space :: "code_unit \<Rightarrow> bool" where
  "is_c0_or_space c = (c \<le> 0x20)"

definition is_tab_or_newline :: "code_unit \<Rightarrow> bool" where
  "is_tab_or_newline c = (c = 0x09 \<or> c = 0x0A \<or> c = 0x0D)"

definition url_preprocess :: "jsstring \<Rightarrow> jsstring" where
  "url_preprocess s =
     filter (\<lambda>c. \<not> is_tab_or_newline c)
       (rev (dropWhile is_c0_or_space (rev (dropWhile is_c0_or_space s))))"

fun scheme_state :: "jsstring \<Rightarrow> jsstring \<Rightarrow> (jsstring \<times> jsstring) option" where
  "scheme_state buf [] = None"
| "scheme_state buf (c # cs) =
     (if is_ascii_alpha c \<or> is_ascii_digit c \<or> c = 0x2B \<or> c = 0x2D \<or> c = 0x2E
      then scheme_state (buf @ [ascii_lower c]) cs
      else if c = 0x3A then Some (buf, cs)
      else None)"

definition scheme_start_state :: "jsstring \<Rightarrow> (jsstring \<times> jsstring) option" where
  "scheme_start_state s =
     (case s of
        [] \<Rightarrow> None
      | c # cs \<Rightarrow> if is_ascii_alpha c then scheme_state [ascii_lower c] cs else None)"

definition new_URL_ok :: "(jsstring \<Rightarrow> jsstring \<Rightarrow> bool) \<Rightarrow> jsstring \<Rightarrow> bool" where
  "new_URL_ok U s =
     (case scheme_start_state (url_preprocess s) of
        None \<Rightarrow> False
      | Some (scheme, rest) \<Rightarrow> U scheme rest)"

text \<open>\<open>z.string().url(msg)\<close>\<close>

definition z_string_url :: "(jsstring \<Rightarrow> jsstring \<Rightarrow> bool) \<Rightarrow> jsstring \<Rightarrow> jsstring schema" where
  "z_string_url U msg p v =
     (case v of
        JStr s \<Rightarrow> if new_URL_ok U s then Valid s else Dirty [Issue invalid_string p (Some msg)]
      | _ \<Rightarrow> Aborted [Issue invalid_type p None])"

text \<open>\<open>s.optional()\<close>\<close>

definition z_optional :: "'a schema \<Rightarrow> 'a option schema" where
  "z_optional s p v =
     (case v of JUndefined \<Rightarrow> Valid None | _ \<Rightarrow> zap (Valid Some) (s p v))"

text \<open>\<open>z.literal("")\<close>\<close>

definition z_literal_empty :: "jsstring schema" where
  "z_literal_empty p v =
     (if v = JStr [] then Valid [] else Aborted [Issue invalid_literal p None])"

text \<open>
  \<open>a.or(b)\<close>: the first valid option wins. When none is valid, the issues of the first dirty
  option are reported; when every option aborted, one issue \<open>invalid_union\<close>.
\<close>

definition z_or :: "'a schema \<Rightarrow> 'a schema \<Rightarrow> 'a schema" where
  "z_or a b p v =
     (case a p v of
        Valid x \<Rightarrow> Valid x
      | Dirty ia \<Rightarrow> (case b p v of Valid y \<Rightarrow> Valid y | _ \<Rightarrow> Dirty ia)
      | Aborted ia \<Rightarrow>
          (case b p v of
             Valid y \<Rightarrow> Valid y
           | Dirty ib \<Rightarrow> Dirty ib
           | Aborted ib \<Rightarrow> Aborted [Issue invalid_union p None]))"

text \<open>\<open>schema.safeParse(v)\<close>: the data, or the issues.\<close>

definition safeParse :: "'a schema \<Rightarrow> jsval \<Rightarrow> issue list + 'a" where
  "safeParse s v = (case s [] v of Valid x \<Rightarrow> Inr x | r \<Rightarrow> Inl (zissues r))"

section \<open>The schemas of the program\<close>

definition ModelSchema :: "Model schema" where
  "ModelSchema p v =
     (case v of
        JObj kvs \<Rightarrow>
          zap (zap (zap (Valid (\<lambda>a u t. \<lparr>apiName = a, uiName = u, supportsTools = t\<rparr>))
                 (field (z_string_min1 (js ''API Name is required.'')) p kvs (js ''apiName'')))
                 (field (z_string_min1 (js ''UI Name is required.'')) p kvs (js ''uiName'')))
                 (field z_boolean p kvs (js ''supportsTools''))
      | _ \<Rightarrow> Aborted [Issue invalid_type p None])"

definition baseUrlSchema :: "(jsstring \<Rightarrow> jsstring \<Rightarrow> bool) \<Rightarrow> jsstring option schema" where
  "baseUrlSchema U =
     z_or (z_optional (z_string_url U (js ''Must be a valid URL.'')))
          (\<lambda>p v. zap (Valid Some) (z_literal_empty p v))"

definition ProviderSchema :: "(jsstring \<Rightarrow> jsstring \<Rightarrow> bool) \<Rightarrow> Provider schema" where
  "ProviderSchema U p v =
     (case v of
        JObj kvs \<Rightarrow>
          zap (zap (zap (zap (Valid (\<lambda>n k b ms.
                   \<lparr>provider = n, apiKeyEnvVar = k, baseUrl = b, models = ms\<rparr>))
                 (field (z_string_min1 (js ''Provider name is required.'')) p kvs (js ''provider'')))
                 (field (z_string_min1 (js ''API Key Env Var is required.'')) p kvs
                    (js ''apiKeyEnvVar'')))
                 (field (baseUrlSchema U) p kvs (js ''baseUrl'')))
                 (field (z_array (Some (1, js ''At least one model is required.'')) ModelSchema)
                    p kvs (js ''models''))
      | _ \<Rightarrow> Aborted [Issue invalid_type p None])"

definition ProvidersListSchema :: "(jsstring \<Rightarrow> jsstring \<Rightarrow> bool) \<Rightarrow> Provider list schema" where
  "ProvidersListSchema U = z_array None (ProviderSchema U)"

definition FormSchema :: "(jsstring \<Rightarrow> jsstring \<Rightarrow> bool) \<Rightarrow> FormValues schema" where
  "FormSchema U p v =
     (case v of
        JObj kvs \<Rightarrow>
          zap (Valid (\<lambda>ps. \<lparr>providers = ps\<rparr>))
              (field (ProvidersListSchema U) p kvs (js ''providers''))
      | _ \<Rightarrow> Aborted [Issue invalid_type p None])"

section \<open>JSON.parse\<close>

text \<open>
  \<open>JSON.parse(text)\<close> reads one value of the JSON grammar, with white space (tab, line
  feed, carriage return, space) allowed around every token, and throws a \<open>SyntaxError\<close> on
  any other text: here the result \<open>None\<close>. Every function below returns the value read and
  the rest of the input.
\<close>

definition is_json_ws :: "code_unit \<Rightarrow> bool" where
  "is_json_ws c = (c = 0x09 \<or> c = 0x0A \<or> c = 0x0D \<or> c = 0x20)"

definition skip_ws :: "jsstring \<Rightarrow> jsstring" where
  "skip_ws s = dropWhile is_json_ws s"

text \<open>Strings: after the opening quote, up to the closing one, with the escapes resolved.\<close>

definition hex_value :: "code_unit \<Rightarrow> code_unit option" where
  "hex_value c =
     (if 0x30 \<le> c \<and> c \<le> 0x39 then Some (c - 0x30)
      else if 0x61 \<le> c \<and> c \<le> 0x66 then Some (c - 0x57)
      else if 0x41 \<le> c \<and> c \<le> 0x46 then Some (c - 0x37)
      else None)"

definition hex4_value :: "code_unit \<Rightarrow> code_unit \<Rightarrow> code_unit \<Rightarrow> code_unit \<Rightarrow> code_unit option" where
  "hex4_value a b c d =
     (case (hex_value a, hex_value b, hex_value c, hex_value d) of
        (Some x3, Some x2, Some x1, Some x0) \<Rightarrow> Some (x3 * 0x1000 + x2 * 0x100 + x1 * 0x10 + x0)
      | _ \<Rightarrow> None)"

definition simple_escape :: "code_unit \<Rightarrow> code_unit option" where
  "simple_escape e =
     (if e = 0x22 then Some 0x22
      else if e = 0x5C then Some 0x5C
      else if e = 0x2F then Some 0x2F
      else if e = 0x62 then Some 0x08
      else if e = 0x66 then Some 0x0C
      else if e = 0x6E then Some 0x0A
      else if e = 0x72 then Some 0x0D
      else if e = 0x74 then Some 0x09
      else None)"

definition cons_result :: "'a \<Rightarrow> ('a list \<times> jsstring) option \<Rightarrow> ('a list \<times> jsstring) option" where
  "cons_result x r = (case r of None \<Rightarrow> None | Some (xs, rest) \<Rightarrow> Some (x # xs, rest))"

fun parse_string_body :: "jsstring \<Rightarrow> (jsstring \<times> jsstring) option" where
  "parse_string_body [] = None"
| "parse_string_body (c # r) =
     (if c = 0x22 then Some ([], r)
      else if c = 0x5C then
        (case r of
           [] \<Rightarrow> None
         | e # r1 \<Rightarrow>
             if e = 0x75 then
               (case r1 of
                  h3 # h2 # h1 # h0 # r2 \<Rightarrow>
                    (case hex4_value h3 h2 h1 h0 of
                       None \<Rightarrow> None
                     | Some u \<Rightarrow> cons_result u (parse_string_body r2))
                | _ \<Rightarrow> None)
             else
               (case simple_escape e of
                  None \<Rightarrow> None
                | Some u \<Rightarrow> cons_result u (parse_string_body r1)))
      else if c < 0x20 then None
      else cons_result c (parse_string_body r))"

text \<open>
  Numbers: an optional minus sign, an integer part with no leading zero, an optional fraction
  and an optional exponent. The literal is kept as it is written.
\<close>

definition lex_int :: "jsstring \<Rightarrow> (jsstring \<times> jsstring) option" where
  "lex_int s =
     (case s of
        [] \<Rightarrow> None
      | d # r \<Rightarrow>
          if d = 0x30 then Some ([d], r)
          else if is_ascii_digit d then Some (d # takeWhile is_ascii_digit r, dropWhile is_ascii_digit r)
          else None)"

definition lex_frac :: "jsstring \<Rightarrow> (jsstring \<times> jsstring) option" where
  "lex_frac s =
     (case s of
        [] \<Rightarrow> Some ([], s)
      | d # r \<Rightarrow>
          if d = 0x2E then
            (if takeWhile is_ascii_digit r = [] then None
             else Some (d # takeWhile is_ascii_digit r, dropWhile is_ascii_digit r))
          else Some ([], s))"

definition lex_exp :: "jsstring \<Rightarrow> (jsstring \<times> jsstring) option" where
  "lex_exp s =
     (case s of
        [] \<Rightarrow> Some ([], s)
      | e # r \<Rightarrow>
          if e = 0x65 \<or> e = 0x45 then
            (let (sign, r1) =
               (case r of
                  [] \<Rightarrow> ([], r)
                | g # r' \<Rightarrow> if g = 0x2B \<or> g = 0x2D then ([g], r') else ([], r))
             in if takeWhile is_ascii_digit r1 = [] then None
                else Some (e # sign @ takeWhile is_ascii_digit r1, dropWhile is_ascii_digit r1))
          else Some ([], s))"

definition lex_number :: "jsstring \<Rightarrow> (jsstring \<times> jsstring) option" where
  "lex_number s =
     (let (sign, s1) = (case s of [] \<Rightarrow> ([], s) | c # r \<Rightarrow> if c = 0x2D then ([c], r) else ([], s))
      in case lex_int s1 of
           None \<Rightarrow> None
         | Some (i, s2) \<Rightarrow>
             (case lex_frac s2 of
                None \<Rightarrow> None
              | Some (f, s3) \<Rightarrow>
                  (case lex_exp s3 of
                     None \<Rightarrow> None
                   | Some (e, s4) \<Rightarrow> Some (sign @ i @ f @ e, s4))))"

definition strip_prefix :: "jsstring \<Rightarrow> jsstring \<Rightarrow> jsstring option" where
  "strip_prefix pre s = (if take (length pre) s = pre then Some (drop (length pre) s) else None)"

lemma length_skip_ws: "length (skip_ws s) \<le> length s"
  by (simp add: skip_ws_def length_dropWhile_le)

lemma skip_ws_Cons_length: "skip_ws s = c # r \<Longrightarrow> length r < length s"
  using length_skip_ws [of s] by simp

lemma parse_string_body_length:
  "parse_string_body s = Some (x, rest) \<Longrightarrow> length rest < length s"
proof (induction s arbitrary: x rest rule: parse_string_body.induct)
  case 1
  then show ?case by simp
next
  case (2 c r)
  then show ?case
    by (fastforce simp: cons_result_def split: if_splits list.splits option.splits)
qed

text \<open>
  Values, the elements of an array after its opening bracket and the members of an object
  after its opening brace. The two tests \<open>length r < length s\<close> are there for the
  termination proof only: a value read has consumed input, so they never fail
  (\<open>parse_elements_unguarded\<close> and \<open>parse_members_unguarded\<close> below).
\<close>

function parse_value :: "jsstring \<Rightarrow> (jsval \<times> jsstring) option"
  and parse_elements :: "jsstring \<Rightarrow> (jsval list \<times> jsstring) option"
  and parse_members :: "jsstring \<Rightarrow> ((jsstring \<times> jsval) list \<times> jsstring) option"
where
  "parse_value s =
     (case skip_ws s of
        [] \<Rightarrow> None
      | c # r \<Rightarrow>
          if c = 0x22 then
            (case parse_string_body r of None \<Rightarrow> None | Some (x, rest) \<Rightarrow> Some (JStr x, rest))
          else if c = 0x5B then
            (case skip_ws r of
               [] \<Rightarrow> None
             | d # r1 \<Rightarrow>
                 if d = 0x5D then Some (JArr [], r1)
                 else (case parse_elements r of
                         None \<Rightarrow> None
                       | Some (vs, rest) \<Rightarrow> Some (JArr vs, rest)))
          else if c = 0x7B then
            (case skip_ws r of
               [] \<Rightarrow> None
             | d # r1 \<Rightarrow>
                 if d = 0x7D then Some (JObj [], r1)
                 else (case parse_members r of
                         None \<Rightarrow> None
                       | Some (kvs, rest) \<Rightarrow> Some (JObj kvs, rest)))
          else if c = 0x74 then
            (case strip_prefix (js ''true'') (c # r) of
               None \<Rightarrow> None | Some rest \<Rightarrow> Some (JBool True, rest))
          else if c = 0x66 then
            (case strip_prefix (js ''false'') (c # r) of
               None \<Rightarrow> None | Some rest \<Rightarrow> Some (JBool False, rest))
          else if c = 0x6E then
            (case strip_prefix (js ''null'') (c # r) of
               None \<Rightarrow> None | Some rest \<Rightarrow> Some (JNull, rest))
          else if c = 0x2D \<or> is_ascii_digit c then
            (case lex_number (c # r) of
               None \<Rightarrow> None | Some (n, rest) \<Rightarrow> Some (JNum n, rest))
          else None)"
| "parse_elements s =
     (case parse_value s of
        None \<Rightarrow> None
      | Some (v, rest) \<Rightarrow>
          (case skip_ws rest of
             [] \<Rightarrow> None
           | c # r \<Rightarrow>
               if c = 0x2C then
                 (if length r < length s then cons_result v (parse_elements r) else None)
               else if c = 0x5D then Some ([v], r)
               else None))"
| "parse_members s =
     (case skip_ws s of
        [] \<Rightarrow> None
      | q # r \<Rightarrow>
          if q = 0x22 then
            (case parse_string_body r of
               None \<Rightarrow> None
             | Some (k, r1) \<Rightarrow>
                 (case skip_ws r1 of
                    [] \<Rightarrow> None
                  | c # r2 \<Rightarrow>
                      if c = 0x3A then
                        (case parse_value r2 of
                           None \<Rightarrow> None
                         | Some (v, r3) \<Rightarrow>
                             (case skip_ws r3 of
                                [] \<Rightarrow> None
                              | d # r4 \<Rightarrow>
                                  if d = 0x2C then
                                    (if length r4 < length s
                                     then cons_result (k, v) (parse_members r4) else None)
                                  else if d = 0x7D then Some ([(k, v)], r4)
                                  else None))
                      else None))
          else None)"
  by pat_completeness auto
termination
proof (relation "measure (\<lambda>x. case x of
          Inl s \<Rightarrow> 2 * length s
        | Inr (Inl s) \<Rightarrow> 2 * length s + 1
        | Inr (Inr s) \<Rightarrow> 2 * length s + 1)", goal_cases)
  case 1
  show ?case by simp
next
  case 2
  then show ?case by (auto dest: skip_ws_Cons_length)
next
  case 3
  then show ?case by (auto dest: skip_ws_Cons_length)
next
  case 4
  show ?case by simp
next
  case 5
  then show ?case by simp
next
  case 6
  then show ?case
    by (auto dest!: skip_ws_Cons_length parse_string_body_length)
next
  case 7
  then show ?case by simp
qed

declare parse_value.simps [simp del] parse_elements.simps [simp del] parse_members.simps [simp del]

definition JSON_parse :: "jsstring \<Rightarrow> jsval option" where
  "JSON_parse text =
     (case parse_value text of
        None \<Rightarrow> None
      | Some (v, rest) \<Rightarrow> if skip_ws rest = [] then Some v else None)"

section \<open>JSON.stringify\<close>

text \<open>
  \<open>QuoteJSONString\<close>: the short escapes for backspace, tab, line feed, form feed, carriage
  return, the quote and the backslash; a backslash, \<open>u\<close> and four lower-case hexadecimal digits for the
  other code units below \<open>0x20\<close> and for a surrogate that is not part of a pair; every other
  code unit as it is.
\<close>

definition is_leading_surrogate :: "code_unit \<Rightarrow> bool" where
  "is_leading_surrogate c = (0xD800 \<le> c \<and> c \<le> 0xDBFF)"

definition is_trailing_surrogate :: "code_unit \<Rightarrow> bool" where
  "is_trailing_surrogate c = (0xDC00 \<le> c \<and> c \<le> 0xDFFF)"

definition hex_digit :: "code_unit \<Rightarrow> code_unit" where
  "hex_digit n = (if n < 10 then 0x30 + n else 0x57 + n)"

definition UnicodeEscape :: "code_unit \<Rightarrow> jsstring" where
  "UnicodeEscape c =
     [0x5C, 0x75, hex_digit (c div 0x1000), hex_digit (c div 0x100 mod 0x10),
      hex_digit (c div 0x10 mod 0x10), hex_digit (c mod 0x10)]"

definition quote_unit :: "code_unit \<Rightarrow> jsstring" where
  "quote_unit c =
     (if c = 0x08 then [0x5C, 0x62]
      else if c = 0x09 then [0x5C, 0x74]
      else if c = 0x0A then [0x5C, 0x6E]
      else if c = 0x0C then [0x5C, 0x66]
      else if c = 0x0D then [0x5C, 0x72]
      else if c = 0x22 then [0x5C, 0x22]
      else if c = 0x5C then [0x5C, 0x5C]
      else if c < 0x20 \<or> is_leading_surrogate c \<or> is_trailing_surrogate c then UnicodeEscape c
      else [c])"

fun quote_units :: "jsstring \<Rightarrow> jsstring" where
  "quote_units [] = []"
| "quote_units [c] = quote_unit c"
| "quote_units (c # d # r) =
     (if is_leading_surrogate c \<and> is_trailing_surrogate d then c # d # quote_units r
      else quote_unit c @ quote_units (d # r))"

definition QuoteJSONString :: "jsstring \<Rightarrow> jsstring" where
  "QuoteJSONString s = 0x22 # quote_units s @ [0x22]"

text \<open>Arrays and objects: the parts separated by commas, with no white space.\<close>

fun join_comma :: "jsstring list \<Rightarrow> jsstring" where
  "join_comma [] = []"
| "join_comma [x] = x"
| "join_comma (x # y # r) = x @ 0x2C # join_comma (y # r)"

definition SerializeJSONArray :: "jsstring list \<Rightarrow> jsstring" where
  "SerializeJSONArray elems = 0x5B # join_comma elems @ [0x5D]"

definition SerializeJSONObject :: "(jsstring \<times> jsstring) list \<Rightarrow> jsstring" where
  "SerializeJSONObject members =
     0x7B # join_comma (map (\<lambda>(k, t). QuoteJSONString k @ 0x3A # t) members) @ [0x7D]"

text \<open>
  \<open>JSON.stringify\<close> at the type of \<open>data.providers\<close>: the properties in the order in which
  the schema creates them, a property whose value is \<open>undefined\<close> left out, no white space.
\<close>

definition stringify_Model :: "Model \<Rightarrow> jsstring" where
  "stringify_Model m =
     SerializeJSONObject
       [(js ''apiName'', QuoteJSONString (apiName m)),
        (js ''uiName'', QuoteJSONString (uiName m)),
        (js ''supportsTools'', if supportsTools m then js ''true'' else js ''false'')]"

definition stringify_Provider :: "Provider \<Rightarrow> jsstring" where
  "stringify_Provider p =
     SerializeJSONObject
       ([(js ''provider'', QuoteJSONString (provider p)),
         (js ''apiKeyEnvVar'', QuoteJSONString (apiKeyEnvVar p))]
        @ (case baseUrl p of None \<Rightarrow> [] | Some u \<Rightarrow> [(js ''baseUrl'', QuoteJSONString u)])
        @ [(js ''models'', SerializeJSONArray (map stringify_Model (models p)))])"

definition JSON_stringify :: "Provider list \<Rightarrow> jsstring" where
  "JSON_stringify ps = SerializeJSONArray (map stringify_Provider ps)"

section \<open>The component \<open>ProviderManager\<close>\<close>

text \<open>
  The state of the component: the values of the form and the two text areas. What a handler
  shows or logs is returned as a list of effects, in the order of the calls.
\<close>

record state =
  form :: FormValues
  outputJson :: jsstring
  importJson :: jsstring

datatype effect =
    toast_error jsstring jsstring
  | toast_success jsstring jsstring
  | console_error_ZodError "issue list"
  | console_error_import
  | form_errors "issue list"

definition defaultValues :: FormValues where
  "defaultValues =
     \<lparr>providers =
        [\<lparr>provider = js ''Groq'',
          apiKeyEnvVar = js ''GROQ_API_KEY'',
          baseUrl = Some (js ''https://api.groq.com/openai/v1''),
          models =
            [\<lparr>apiName = js ''llama3-8b-8192'',
              uiName = js ''Llama 3 8B'',
              supportsTools = True\<rparr>]\<rparr>]\<rparr>"

definition initial_state :: state where
  "initial_state = \<lparr>form = defaultValues, outputJson = [], importJson = []\<rparr>"

subsection \<open>The field arrays\<close>

text \<open>
  \<open>useFieldArray\<close> gives \<open>append\<close> and \<open>remove\<close> for the providers and, inside the
  card of provider \<open>providerIndex\<close>, for its models. An index that is not in the array
  removes nothing.
\<close>

definition remove_at :: "nat \<Rightarrow> 'a list \<Rightarrow> 'a list" where
  "remove_at i xs = take i xs @ drop (Suc i) xs"

definition update_models :: "nat \<Rightarrow> (Model list \<Rightarrow> Model list) \<Rightarrow> Provider list \<Rightarrow> Provider list" where
  "update_models i f ps =
     (if i < length ps then ps[i := (ps ! i)\<lparr>models := f (models (ps ! i))\<rparr>] else ps)"

definition appendProvider :: "state \<Rightarrow> state" where
  "appendProvider st =
     st\<lparr>form := \<lparr>providers = providers (form st) @
        [\<lparr>provider = [], apiKeyEnvVar = [], baseUrl = Some [],
          models = [\<lparr>apiName = [], uiName = [], supportsTools = False\<rparr>]\<rparr>]\<rparr>\<rparr>"

definition removeProvider :: "nat \<Rightarrow> state \<Rightarrow> state" where
  "removeProvider providerIndex st =
     st\<lparr>form := \<lparr>providers = remove_at providerIndex (providers (form st))\<rparr>\<rparr>"

definition appendModel :: "nat \<Rightarrow> state \<Rightarrow> state" where
  "appendModel providerIndex st =
     st\<lparr>form := \<lparr>providers = update_models providerIndex
        (\<lambda>ms. ms @ [\<lparr>apiName = [], uiName = [], supportsTools = False\<rparr>])
        (providers (form st))\<rparr>\<rparr>"

definition removeModel :: "nat \<Rightarrow> nat \<Rightarrow> state \<Rightarrow> state" where
  "removeModel providerIndex modelIndex st =
     st\<lparr>form := \<lparr>providers = update_models providerIndex (remove_at modelIndex)
        (providers (form st))\<rparr>\<rparr>"

subsection \<open>Generate JSON\<close>

definition onSubmit :: "FormValues \<Rightarrow> state \<Rightarrow> state \<times> effect list" where
  "onSubmit data st =
     (st\<lparr>outputJson := JSON_stringify (providers data)\<rparr>,
      [toast_success (js ''JSON Generated!'')
         (js ''The one-line JSON has been created below.'')])"

text \<open>
  \<open>form.handleSubmit(onSubmit)\<close>: the resolver parses the values of the form with
  \<open>FormSchema\<close>; \<open>onSubmit\<close> is called with the parsed data only when that succeeds,
  otherwise the issues become the errors of the form.
\<close>

definition handleSubmit :: "(jsstring \<Rightarrow> jsstring \<Rightarrow> bool) \<Rightarrow> state \<Rightarrow> state \<times> effect list" where
  "handleSubmit U st =
     (case safeParse (FormSchema U) (js_of_FormValues (form st)) of
        Inl issues \<Rightarrow> (st, [form_errors issues])
      | Inr data \<Rightarrow> onSubmit data st)"

subsection \<open>Import and edit\<close>

text \<open>\<open>String.prototype.trim\<close> removes white space and line terminators at both ends.\<close>

definition is_js_whitespace :: "code_unit \<Rightarrow> bool" where
  "is_js_whitespace c =
     (c = 0x09 \<or> c = 0x0A \<or> c = 0x0B \<or> c = 0x0C \<or> c = 0x0D \<or> c = 0x20 \<or> c = 0xA0
      \<or> c = 0x1680 \<or> (0x2000 \<le> c \<and> c \<le> 0x200A) \<or> c = 0x2028 \<or> c = 0x2029
      \<or> c = 0x202F \<or> c = 0x205F \<or> c = 0x3000 \<or> c = 0xFEFF)"

definition trim :: "jsstring \<Rightarrow> jsstring" where
  "trim s = rev (dropWhile is_js_whitespace (rev (dropWhile is_js_whitespace s)))"

definition setImportJson :: "jsstring \<Rightarrow> state \<Rightarrow> state" where
  "setImportJson text st = st\<lparr>importJson := text\<rparr>"

definition handleImport :: "(jsstring \<Rightarrow> jsstring \<Rightarrow> bool) \<Rightarrow> state \<Rightarrow> state \<times> effect list" where
  "handleImport U st =
     (if trim (importJson st) = [] then
        (st, [toast_error (js ''Import field is empty.'')
                (js ''Please paste your JSON array to import.'')])
      else
        (case JSON_parse (importJson st) of
           None \<Rightarrow>
             (st, [toast_error (js ''Invalid JSON format.'')
                     (js ''Could not parse the JSON. Please check for syntax errors.''),
                   console_error_import])
         | Some parsed \<Rightarrow>
             (case safeParse (ProvidersListSchema U) parsed of
                Inl issues \<Rightarrow>
                  (st, [console_error_ZodError issues,
                        toast_error (js ''Invalid JSON structure.'')
                          (js ''The provided JSON does not match the required schema. Check console for details.'')])
              | Inr data \<Rightarrow>
                  (st\<lparr>form := \<lparr>providers = data\<rparr>\<rparr>,
                   [toast_success (js ''Import Successful!'')
                      (js ''The form has been updated with your data.'')]))))"

section \<open>Notions used in the proofs\<close>

text \<open>The result of a schema on a typed value: valid when there is no issue, dirty otherwise.\<close>

definition zres_of :: "issue list \<Rightarrow> 'a \<Rightarrow> 'a zres" where
  "zres_of is x = (if is = [] then Valid x else Dirty is)"

text \<open>The issues of a typed value, field by field, in the order in which the schemas report them.\<close>

definition Model_issues :: "path_elem list \<Rightarrow> Model \<Rightarrow> issue list" where
  "Model_issues p m =
     (if apiName m = [] then [Issue too_small (p @ [Key (js ''apiName'')]) (Some (js ''API Name is required.''))] else [])
     @ (if uiName m = [] then [Issue too_small (p @ [Key (js ''uiName'')]) (Some (js ''UI Name is required.''))] else [])"

definition elements_issues :: "(path_elem list \<Rightarrow> 'a \<Rightarrow> issue list) \<Rightarrow> path_elem list \<Rightarrow> nat \<Rightarrow> 'a list \<Rightarrow> issue list" where
  "elements_issues iss p i xs = concat (map (\<lambda>(j, x). iss (p @ [Idx j]) x) (enumerate i xs))"

definition baseUrl_issues :: "(jsstring \<Rightarrow> jsstring \<Rightarrow> bool) \<Rightarrow> path_elem list \<Rightarrow> jsstring option \<Rightarrow> issue list" where
  "baseUrl_issues U p b =
     (case b of
        None \<Rightarrow> []
      | Some u \<Rightarrow> if new_URL_ok U u \<or> u = [] then []
                 else [Issue invalid_string p (Some (js ''Must be a valid URL.''))])"

definition Provider_issues :: "(jsstring \<Rightarrow> jsstring \<Rightarrow> bool) \<Rightarrow> path_elem list \<Rightarrow> Provider \<Rightarrow> issue list" where
  "Provider_issues U p pr =
     (if provider pr = [] then [Issue too_small (p @ [Key (js ''provider'')]) (Some (js ''Provider name is required.''))] else [])
     @ (if apiKeyEnvVar pr = [] then [Issue too_small (p @ [Key (js ''apiKeyEnvVar'')]) (Some (js ''API Key Env Var is required.''))] else [])
     @ baseUrl_issues U (p @ [Key (js ''baseUrl'')]) (baseUrl pr)
     @ (if models pr = [] then [Issue too_small (p @ [Key (js ''models'')]) (Some (js ''At least one model is required.''))] else [])
     @ elements_issues Model_issues (p @ [Key (js ''models'')]) 0 (models pr)"

definition Form_issues :: "(jsstring \<Rightarrow> jsstring \<Rightarrow> bool) \<Rightarrow> FormValues \<Rightarrow> issue list" where
  "Form_issues U f = elements_issues (Provider_issues U) [Key (js ''providers'')] 0 (providers f)"

text \<open>A text renders a value when the parser reads the value back from it, whatever follows.\<close>

definition renders :: "jsstring \<Rightarrow> jsval \<Rightarrow> bool" where
  "renders t v = (\<forall>rest. parse_value (t @ rest) = Some (v, rest))"

definition member_text :: "jsstring \<times> jsstring \<Rightarrow> jsstring" where
  "member_text = (\<lambda>(k, t). QuoteJSONString k @ 0x3A # t)"

definition member_renders :: "jsstring \<times> jsstring \<Rightarrow> jsstring \<times> jsval \<Rightarrow> bool" where
  "member_renders kt kv = (fst kt = fst kv \<and> renders (snd kt) (snd kv))"

text \<open>A text with no line feed and no carriage return.\<close>

definition one_line :: "jsstring \<Rightarrow> bool" where
  "one_line s = (0x0A \<notin> set s \<and> 0x0D \<notin> set s)"

text \<open>A result that is valid or carries at least one issue.\<close>

definition reports :: "'a zres \<Rightarrow> bool" where
  "reports r = (is_valid r \<or> zissues r \<noteq> [])"

text \<open>The example text of the default configuration.\<close>

definition groq_json :: jsstring where
  "groq_json = js ''[{\"provider\":\"Groq\",\"apiKeyEnvVar\":\"GROQ_API_KEY\",\"baseUrl\":\"https://api.groq.com/openai/v1\",\"models\":[{\"apiName\":\"llama3-8b-8192\",\"uiName\":\"Llama 3 8B\",\"supportsTools\":true}]}]''"

section \<open>Lemmas\<close>

subsection \<open>The parser consumes its input\<close>

lemma strip_prefix_length:
  "strip_prefix pre s = Some rest \<Longrightarrow> pre \<noteq> [] \<Longrightarrow> length rest < length s"
  by (cases s) (auto simp: strip_prefix_def split: if_splits)

lemma lex_int_length: "lex_int s = Some (i, rest) \<Longrightarrow> length rest < length s"
  by (auto simp: lex_int_def split: list.splits if_splits
      intro: le_imp_less_Suc length_dropWhile_le)

lemma lex_frac_length: "lex_frac s = Some (f, rest) \<Longrightarrow> length rest \<le> length s"
  by (auto simp: lex_frac_def split: list.splits if_splits
      intro: le_SucI length_dropWhile_le)

lemma lex_exp_length: "lex_exp s = Some (e, rest) \<Longrightarrow> length rest \<le> length s"
  by (auto simp: lex_exp_def Let_def split: list.splits if_splits prod.splits
      intro: le_SucI length_dropWhile_le)

lemma lex_number_length: "lex_number s = Some (n, rest) \<Longrightarrow> length rest < length s"
  by (auto simp: lex_number_def Let_def split: list.splits if_splits prod.splits option.splits
      dest!: lex_int_length lex_frac_length lex_exp_length)

lemma parse_lengths:
  "(\<forall>v rest. parse_value s = Some (v, rest) \<longrightarrow> length rest < length s)"
  "(\<forall>vs rest. parse_elements s1 = Some (vs, rest) \<longrightarrow> length rest < length s1)"
  "(\<forall>kvs rest. parse_members s2 = Some (kvs, rest) \<longrightarrow> length rest < length s2)"
proof (induction s and s1 and s2 rule: parse_value_parse_elements_parse_members.induct)
  case (1 s)
  show ?case
  proof (intro allI impI)
    fix v rest
    assume a: "parse_value s = Some (v, rest)"
    show "length rest < length s"
    proof (cases "skip_ws s")
      case Nil
      with a show ?thesis by (simp add: parse_value.simps)
    next
      case (Cons c r)
      have r: "length r < length s" using Cons by (rule skip_ws_Cons_length)
      have cr: "length (c # r) \<le> length s" using length_skip_ws [of s] Cons by simp
      from a Cons "1.IH" r cr show ?thesis
        apply (subst (asm) parse_value.simps)
        apply (auto simp: js_def split: if_splits option.splits list.splits
            dest!: parse_string_body_length strip_prefix_length lex_number_length)
             apply (frule skip_ws_Cons_length [of r], simp)
            apply (frule skip_ws_Cons_length [of r], simp)
           apply (meson less_trans)
          apply (frule skip_ws_Cons_length [of r], simp)
         apply (frule skip_ws_Cons_length [of r], simp)
        apply (meson less_trans)
        done
    qed
  qed
next
  case (2 s)
  show ?case
  proof (intro allI impI)
    fix vs rest
    assume a: "parse_elements s = Some (vs, rest)"
    from a "2.IH" show "length rest < length s"
      apply (subst (asm) parse_elements.simps)
      apply (auto simp: cons_result_def split: if_splits option.splits list.splits
          dest!: skip_ws_Cons_length)
      apply (meson less_trans)
      done
  qed
next
  case (3 s)
  show ?case
  proof (intro allI impI)
    fix kvs rest
    assume a: "parse_members s = Some (kvs, rest)"
    from a "3.IH" show "length rest < length s"
      apply (subst (asm) parse_members.simps)
      apply (auto simp: cons_result_def split: if_splits option.splits list.splits
          dest!: skip_ws_Cons_length parse_string_body_length)
       apply (meson less_trans)+
      done
  qed
qed


lemma parse_value_length: "parse_value s = Some (v, rest) \<Longrightarrow> length rest < length s"
  using parse_lengths(1) by blast

lemma parse_elements_unguarded:
  "parse_elements s =
     (case parse_value s of
        None \<Rightarrow> None
      | Some (v, rest) \<Rightarrow>
          (case skip_ws rest of
             [] \<Rightarrow> None
           | c # r \<Rightarrow>
               if c = 0x2C then cons_result v (parse_elements r)
               else if c = 0x5D then Some ([v], r)
               else None))"
proof (cases "parse_value s")
  case None
  then show ?thesis by (subst parse_elements.simps) simp
next
  case (Some x)
  obtain v rest where x: "x = (v, rest)" by (cases x)
  have l: "length rest < length s" using Some x by (simp add: parse_value_length)
  show ?thesis
  proof (cases "skip_ws rest")
    case Nil
    with Some x show ?thesis by (subst parse_elements.simps) simp
  next
    case (Cons c r)
    then have "length r < length s" using l skip_ws_Cons_length [of rest c r] by simp
    with Some x Cons show ?thesis by (subst parse_elements.simps) simp
  qed
qed

lemma parse_members_unguarded:
  "parse_members s =
     (case skip_ws s of
        [] \<Rightarrow> None
      | q # r \<Rightarrow>
          if q = 0x22 then
            (case parse_string_body r of
               None \<Rightarrow> None
             | Some (k, r1) \<Rightarrow>
                 (case skip_ws r1 of
                    [] \<Rightarrow> None
                  | c # r2 \<Rightarrow>
                      if c = 0x3A then
                        (case parse_value r2 of
                           None \<Rightarrow> None
                         | Some (v, r3) \<Rightarrow>
                             (case skip_ws r3 of
                                [] \<Rightarrow> None
                              | d # r4 \<Rightarrow>
                                  if d = 0x2C then cons_result (k, v) (parse_members r4)
                                  else if d = 0x7D then Some ([(k, v)], r4)
                                  else None))
                      else None))
          else None)"
  apply (subst parse_members.simps)
  apply (auto split: list.splits option.splits
      dest!: skip_ws_Cons_length parse_string_body_length parse_value_length)
  done

subsection \<open>Schemas on typed values\<close>

lemma zap_zres_of: "zap (zres_of i1 f) (zres_of i2 x) = zres_of (i1 @ i2) (f x)"
  by (simp add: zres_of_def)

lemma Valid_zres_of: "Valid x = zres_of [] x"
  by (simp add: zres_of_def)

lemma zissues_zres_of [simp]: "zissues (zres_of is x) = is"
  by (simp add: zres_of_def)

lemma is_valid_zres_of [simp]: "is_valid (zres_of is x) = (is = [])"
  by (simp add: zres_of_def)

lemma z_string_min1_JStr:
  "z_string_min1 msg p (JStr s) = zres_of (if s = [] then [Issue too_small p (Some msg)] else []) s"
  by (simp add: z_string_min1_def zres_of_def)

lemma z_boolean_JBool: "z_boolean p (JBool b) = zres_of [] b"
  by (simp add: z_boolean_def zres_of_def)

lemma get_prop_Model:
  "get_prop [(js ''apiName'', a), (js ''uiName'', u), (js ''supportsTools'', t)] (js ''apiName'') = a"
  "get_prop [(js ''apiName'', a), (js ''uiName'', u), (js ''supportsTools'', t)] (js ''uiName'') = u"
  "get_prop [(js ''apiName'', a), (js ''uiName'', u), (js ''supportsTools'', t)] (js ''supportsTools'') = t"
  by (simp_all add: get_prop_def js_def)

lemma ModelSchema_js_of_Model: "ModelSchema p (js_of_Model m) = zres_of (Model_issues p m) m"
  unfolding ModelSchema_def js_of_Model_def
  by (simp add: field_def get_prop_Model z_string_min1_JStr z_boolean_JBool Model_issues_def zres_of_def)

lemma elements_issues_simps [simp]:
  "elements_issues iss p i [] = []"
  "elements_issues iss p i (x # xs) = iss (p @ [Idx i]) x @ elements_issues iss p (Suc i) xs"
  by (simp_all add: elements_issues_def)

lemma z_elements_typed:
  assumes "\<And>q x. el q (f x) = zres_of (iss q x) x"
  shows "z_elements el p i (map f xs) = zres_of (elements_issues iss p i xs) xs"
proof (induction xs arbitrary: i)
  case Nil
  show ?case by (simp add: zres_of_def)
next
  case (Cons x xs)
  show ?case
    by (simp add: Cons.IH assms) (simp add: zres_of_def)
qed

lemma z_array_typed:
  assumes "\<And>q x. el q (f x) = zres_of (iss q x) x"
  shows "z_array ml el p (JArr (map f xs)) =
    zres_of ((case ml of None \<Rightarrow> [] | Some (n, msg) \<Rightarrow>
                if length xs < n then [Issue too_small p (Some msg)] else [])
             @ elements_issues iss p 0 xs) xs"
  unfolding z_array_def
  by (simp add: z_elements_typed [where iss = iss, OF assms] split: option.splits)
     (auto simp: zres_of_def)

lemma baseUrlSchema_JUndefined: "baseUrlSchema U p JUndefined = Valid None"
  by (simp add: baseUrlSchema_def z_or_def z_optional_def)

lemma baseUrlSchema_JStr:
  "baseUrlSchema U p (JStr u) = zres_of (baseUrl_issues U p (Some u)) (Some u)"
  by (simp add: baseUrlSchema_def z_or_def z_optional_def z_string_url_def z_literal_empty_def
      baseUrl_issues_def zres_of_def)

lemma get_prop_Provider_Some:
  "get_prop [(js ''provider'', n), (js ''apiKeyEnvVar'', k), (js ''baseUrl'', b), (js ''models'', ms)] (js ''provider'') = n"
  "get_prop [(js ''provider'', n), (js ''apiKeyEnvVar'', k), (js ''baseUrl'', b), (js ''models'', ms)] (js ''apiKeyEnvVar'') = k"
  "get_prop [(js ''provider'', n), (js ''apiKeyEnvVar'', k), (js ''baseUrl'', b), (js ''models'', ms)] (js ''baseUrl'') = b"
  "get_prop [(js ''provider'', n), (js ''apiKeyEnvVar'', k), (js ''baseUrl'', b), (js ''models'', ms)] (js ''models'') = ms"
  by (simp_all add: get_prop_def js_def)

lemma get_prop_Provider_None:
  "get_prop [(js ''provider'', n), (js ''apiKeyEnvVar'', k), (js ''models'', ms)] (js ''provider'') = n"
  "get_prop [(js ''provider'', n), (js ''apiKeyEnvVar'', k), (js ''models'', ms)] (js ''apiKeyEnvVar'') = k"
  "get_prop [(js ''provider'', n), (js ''apiKeyEnvVar'', k), (js ''models'', ms)] (js ''baseUrl'') = JUndefined"
  "get_prop [(js ''provider'', n), (js ''apiKeyEnvVar'', k), (js ''models'', ms)] (js ''models'') = ms"
  by (simp_all add: get_prop_def js_def)

lemma models_array_typed:
  "z_array (Some (Suc 0, msg)) ModelSchema q (JArr (map js_of_Model ms)) =
     zres_of ((if ms = [] then [Issue too_small q (Some msg)] else [])
              @ elements_issues Model_issues q 0 ms) ms"
  using z_array_typed [where el = ModelSchema and f = js_of_Model and iss = Model_issues
      and ml = "Some (Suc 0, msg)" and p = q and xs = ms, OF ModelSchema_js_of_Model]
  by (cases ms) simp_all

lemma ProviderSchema_js_of_Provider:
  "ProviderSchema U p (js_of_Provider pr) = zres_of (Provider_issues U p pr) pr"
proof (cases "baseUrl pr")
  case None
  then show ?thesis
    unfolding ProviderSchema_def js_of_Provider_def
    by (simp add: field_def get_prop_Provider_None z_string_min1_JStr models_array_typed
        baseUrlSchema_JUndefined Valid_zres_of [of None] zap_zres_of Provider_issues_def baseUrl_issues_def
        del: zap.simps)
       (simp add: zres_of_def)
next
  case (Some u)
  then show ?thesis
    unfolding ProviderSchema_def js_of_Provider_def
    by (simp add: field_def get_prop_Provider_Some z_string_min1_JStr models_array_typed
        baseUrlSchema_JStr zap_zres_of Provider_issues_def
        del: zap.simps)
       (simp add: zres_of_def)
qed

lemma ProvidersListSchema_typed:
  "ProvidersListSchema U p (js_of_providers ps) = zres_of (elements_issues (Provider_issues U) p 0 ps) ps"
  unfolding ProvidersListSchema_def js_of_providers_def
  using z_array_typed [where el = "ProviderSchema U" and f = js_of_Provider
      and iss = "Provider_issues U" and ml = None and p = p and xs = ps,
      OF ProviderSchema_js_of_Provider]
  by simp

lemma FormSchema_typed:
  "FormSchema U [] (js_of_FormValues f) = zres_of (Form_issues U f) f"
  unfolding FormSchema_def js_of_FormValues_def
  by (simp add: field_def get_prop_def ProvidersListSchema_typed Form_issues_def)
     (simp add: zres_of_def)

lemma safeParse_zres_of:
  "s [] v = zres_of e x \<Longrightarrow> safeParse s v = (if e = [] then Inr x else Inl e)"
  by (simp add: safeParse_def zres_of_def)

lemma handleSubmit_eq:
  "handleSubmit U st =
     (if Form_issues U (form st) = [] then onSubmit (form st) st
      else (st, [form_errors (Form_issues U (form st))]))"
  by (simp add: handleSubmit_def
      safeParse_zres_of [where s = "FormSchema U" and v = "js_of_FormValues (form st)"
        and x = "form st" and e = "Form_issues U (form st)", OF FormSchema_typed])

lemma elements_issues_nth:
  "i < length xs \<Longrightarrow> set (iss (p @ [Idx (k + i)]) (xs ! i)) \<subseteq> set (elements_issues iss p k xs)"
proof (induction xs arbitrary: i k)
  case Nil
  then show ?case by simp
next
  case (Cons x xs)
  show ?case
  proof (cases i)
    case 0
    then show ?thesis by simp
  next
    case (Suc j)
    with Cons.prems have "j < length xs" by simp
    from Cons.IH [OF this, of "Suc k"] Suc show ?thesis by auto
  qed
qed

lemma Form_issues_nth:
  "i < length (providers f) \<Longrightarrow>
   set (Provider_issues U [Key (js ''providers''), Idx i] (providers f ! i)) \<subseteq> set (Form_issues U f)"
  using elements_issues_nth [of i "providers f" "Provider_issues U" "[Key (js ''providers'')]" 0]
  by (simp add: Form_issues_def)

subsection \<open>The optional base URL\<close>

lemma zissues_zap: "zissues (zap a b) = zissues a @ zissues b"
  by (cases a; cases b) simp_all

lemma is_valid_zap: "is_valid (zap a b) = (is_valid a \<and> is_valid b)"
  by (cases a; cases b) simp_all

lemma get_prop_append1:
  "get_prop (kvs @ [(k, v)]) k' = (if k' = k then v else get_prop kvs k')"
  by (simp add: get_prop_def)

lemma not_a_url_no_scheme: "\<not> new_URL_ok U (js ''not-a-url'')"
  by (simp add: new_URL_ok_def url_preprocess_def scheme_start_state_def js_def
      is_c0_or_space_def is_tab_or_newline_def is_ascii_alpha_def is_ascii_digit_def ascii_lower_def)

lemma is_valid_baseUrlSchema_JStr:
  "is_valid (baseUrlSchema U p (JStr u)) = (u = [] \<or> new_URL_ok U u)"
  by (auto simp: baseUrlSchema_JStr baseUrl_issues_def)

subsection \<open>Hexadecimal digits\<close>

lemma unat_code_unit_bound: "unat (c :: code_unit) < 65536"
  using unsigned_less [of c, where ?'a = nat] by simp

lemma div_0x100: "(c :: code_unit) div 0x100 = c div 0x10 div 0x10"
  by (rule word_unat_eq_iff [THEN iffD2]) (simp add: unat_div div_mult2_eq [symmetric])

lemma div_0x1000: "(c :: code_unit) div 0x1000 = c div 0x10 div 0x10 div 0x10"
  by (rule word_unat_eq_iff [THEN iffD2]) (simp add: unat_div div_mult2_eq [symmetric])

lemma word_hex_recompose:
  "(c :: code_unit) div 0x1000 * 0x1000 + c div 0x100 mod 0x10 * 0x100
     + c div 0x10 mod 0x10 * 0x10 + c mod 0x10 = c"
proof -
  define A where "A = c div 0x10"
  define B where "B = A div 0x10"
  define C where "C = B div 0x10"
  have c: "c = A * 0x10 + c mod 0x10" unfolding A_def by (simp only: div_mult_mod_eq)
  have a: "A = B * 0x10 + A mod 0x10" unfolding B_def by (simp only: div_mult_mod_eq)
  have b: "B = C * 0x10 + B mod 0x10" unfolding C_def by (simp only: div_mult_mod_eq)
  have "C * 0x1000 + B mod 0x10 * 0x100 + A mod 0x10 * 0x10 + c mod 0x10
      = ((C * 0x10 + B mod 0x10) * 0x10 + A mod 0x10) * 0x10 + c mod 0x10"
    by (simp add: algebra_simps)
  also have "\<dots> = c" using a b c by simp
  finally show ?thesis
    by (simp add: div_0x100 div_0x1000 A_def B_def C_def)
qed

lemma div_lt16: "(c :: code_unit) div 0x1000 < 16"
  using unat_code_unit_bound [of c] by (simp add: word_less_nat_alt unat_div)

lemma mod_lt16: "(x :: code_unit) mod 0x10 < 16"
  by (simp add: word_less_nat_alt unat_mod)

lemma hex_value_hex_digit: "n < 16 \<Longrightarrow> hex_value (hex_digit n) = Some n"
  unfolding hex_value_def hex_digit_def
  by (auto simp: word_less_nat_alt word_le_nat_alt unat_word_ariths unat_sub)

lemma hex4_value_digits:
  "hex4_value (hex_digit (c div 0x1000)) (hex_digit (c div 0x100 mod 0x10))
     (hex_digit (c div 0x10 mod 0x10)) (hex_digit (c mod 0x10)) = Some c"
  by (simp add: hex4_value_def hex_value_hex_digit div_lt16 mod_lt16 word_hex_recompose)

subsection \<open>Reading back a quoted string\<close>

lemma parse_UnicodeEscape:
  "parse_string_body (UnicodeEscape c @ t) = cons_result c (parse_string_body t)"
  by (simp add: UnicodeEscape_def hex4_value_digits)

lemma parse_plain_unit:
  "c \<noteq> 0x22 \<Longrightarrow> c \<noteq> 0x5C \<Longrightarrow> \<not> c < 0x20 \<Longrightarrow>
   parse_string_body (c # t) = cons_result c (parse_string_body t)"
  by simp

lemma parse_quote_unit:
  "parse_string_body (quote_unit c @ t) = cons_result c (parse_string_body t)"
  unfolding quote_unit_def
  by (auto simp: parse_UnicodeEscape simple_escape_def)

lemma surrogate_plain:
  assumes "0xD800 \<le> (c :: code_unit)"
  shows "c \<noteq> 0x22" "c \<noteq> 0x5C" "\<not> c < 0x20"
  using assms by (auto simp: word_le_nat_alt word_less_nat_alt)

lemma parse_quote_units:
  "parse_string_body (quote_units s @ 0x22 # rest) = Some (s, rest)"
proof (induction s rule: quote_units.induct)
  case 1
  show ?case by simp
next
  case (2 c)
  show ?case by (simp add: parse_quote_unit cons_result_def)
next
  case (3 c d r)
  show ?case
  proof (cases "is_leading_surrogate c \<and> is_trailing_surrogate d")
    case True
    then have c: "0xD800 \<le> c" and d: "0xD800 \<le> d"
      by (auto simp: is_leading_surrogate_def is_trailing_surrogate_def word_le_nat_alt)
    from True have eq: "quote_units (c # d # r) = c # d # quote_units r"
      by simp
    from True 3(1) have "parse_string_body (quote_units r @ 0x22 # rest) = Some (r, rest)"
      by blast
    then show ?thesis
      by (simp only: eq append_Cons parse_plain_unit surrogate_plain [OF c] surrogate_plain [OF d]
          not_False_eq_True) (simp add: cons_result_def)
  next
    case False
    then have eq: "quote_units (c # d # r) = quote_unit c @ quote_units (d # r)"
      by auto
    from False 3(2) have "parse_string_body (quote_units (d # r) @ 0x22 # rest) = Some (d # r, rest)"
      by blast
    then show ?thesis
      by (simp only: eq append_assoc parse_quote_unit) (simp add: cons_result_def)
  qed
qed

subsection \<open>Reading back arrays and objects\<close>

lemma skip_ws_Cons: "\<not> is_json_ws c \<Longrightarrow> skip_ws (c # r) = c # r"
  by (simp add: skip_ws_def)

lemma not_ws [simp]:
  "\<not> is_json_ws 0x22" "\<not> is_json_ws 0x5B" "\<not> is_json_ws 0x5D" "\<not> is_json_ws 0x7B"
  "\<not> is_json_ws 0x7D" "\<not> is_json_ws 0x2C" "\<not> is_json_ws 0x3A" "\<not> is_json_ws 0x74"
  "\<not> is_json_ws 0x66"
  by (simp_all add: is_json_ws_def)

lemma renders_string: "renders (QuoteJSONString s) (JStr s)"
  by (simp add: renders_def QuoteJSONString_def parse_value.simps skip_ws_Cons parse_quote_units
      del: parse_string_body.simps)

lemma renders_true: "renders (js ''true'') (JBool True)"
  by (simp add: renders_def js_def parse_value.simps skip_ws_Cons strip_prefix_def)

lemma renders_false: "renders (js ''false'') (JBool False)"
  by (simp add: renders_def js_def parse_value.simps skip_ws_Cons strip_prefix_def)

lemma parse_value_Some_head:
  assumes "parse_value s = Some x"
  shows "\<exists>c r. skip_ws s = c # r \<and> c \<noteq> 0x5D \<and> c \<noteq> 0x7D"
proof (cases "skip_ws s")
  case Nil
  with assms show ?thesis by (simp add: parse_value.simps)
next
  case (Cons c r)
  with assms show ?thesis
    by (auto simp: parse_value.simps is_ascii_digit_def split: if_splits)
qed

lemma parse_elements_Some_head:
  assumes "parse_elements s = Some x"
  shows "\<exists>c r. skip_ws s = c # r \<and> c \<noteq> 0x5D"
proof -
  from assms obtain y where "parse_value s = Some y"
    by (subst (asm) parse_elements.simps) (auto split: option.splits)
  from parse_value_Some_head [OF this] show ?thesis by blast
qed

lemma parse_elements_join:
  assumes "list_all2 renders ts vs" and "ts \<noteq> []"
  shows "parse_elements (join_comma ts @ 0x5D # rest) = Some (vs, rest)"
  using assms
proof (induction ts arbitrary: vs rule: join_comma.induct)
  case 1
  then show ?case by simp
next
  case (2 x)
  then obtain v where vs: "vs = [v]" and r: "renders x v"
    by (auto simp: list_all2_Cons1)
  from r have "parse_value (x @ 0x5D # rest) = Some (v, 0x5D # rest)"
    by (simp add: renders_def)
  then show ?case
    by (subst parse_elements.simps) (simp add: vs skip_ws_Cons)
next
  case (3 x y r)
  then obtain v vs' where vs: "vs = v # vs'" and r: "renders x v"
    and rest: "list_all2 renders (y # r) vs'"
    by (auto simp: list_all2_Cons1)
  from r have pv: "parse_value (x @ 0x2C # join_comma (y # r) @ 0x5D # rest)
      = Some (v, 0x2C # join_comma (y # r) @ 0x5D # rest)"
    by (simp add: renders_def)
  from "3.IH" [OF rest] have ih: "parse_elements (join_comma (y # r) @ 0x5D # rest) = Some (vs', rest)"
    by simp
  show ?case
    by (subst parse_elements.simps) (simp add: pv skip_ws_Cons ih vs cons_result_def)
qed

lemma renders_array:
  assumes "list_all2 renders ts vs"
  shows "renders (SerializeJSONArray ts) (JArr vs)"
proof (cases "ts = []")
  case True
  with assms have "vs = []" by simp
  with True show ?thesis
    by (simp add: renders_def SerializeJSONArray_def parse_value.simps skip_ws_Cons)
next
  case False
  show ?thesis
    unfolding renders_def
  proof
    fix rest
    have pe: "parse_elements (join_comma ts @ 0x5D # rest) = Some (vs, rest)"
      by (rule parse_elements_join [OF assms False])
    from parse_elements_Some_head [OF pe] obtain c r
      where hd: "skip_ws (join_comma ts @ 0x5D # rest) = c # r" "c \<noteq> 0x5D"
      by blast
    show "parse_value (SerializeJSONArray ts @ rest) = Some (JArr vs, rest)"
      by (subst parse_value.simps) (simp add: SerializeJSONArray_def skip_ws_Cons hd pe)
  qed
qed

lemma parse_member_key:
  "parse_string_body (quote_units k @ 0x22 # 0x3A # t) = Some (k, 0x3A # t)"
  by (rule parse_quote_units)

lemma parse_members_join:
  assumes "list_all2 member_renders kts kvs" and "kts \<noteq> []"
  shows "parse_members (join_comma (map member_text kts) @ 0x7D # rest) = Some (kvs, rest)"
  using assms
proof (induction kts arbitrary: kvs)
  case Nil
  then show ?case by simp
next
  case (Cons kt kts)
  obtain k t where kt: "kt = (k, t)" by (cases kt)
  from Cons.prems obtain kv kvs' where kvs0: "kvs = kv # kvs'" and m: "member_renders kt kv"
    and rest: "list_all2 member_renders kts kvs'"
    by (auto simp: list_all2_Cons1)
  from m obtain v where kv: "kv = (k, v)" and r: "renders t v"
    by (cases kv) (auto simp: member_renders_def kt)
  have kvs: "kvs = (k, v) # kvs'" by (simp add: kvs0 kv)
  show ?case
  proof (cases kts)
    case Nil
    with rest have e: "kvs' = []" by simp
    from r have pv: "parse_value (t @ 0x7D # rest) = Some (v, 0x7D # rest)"
      by (simp add: renders_def)
    show ?thesis
      by (subst parse_members.simps)
         (simp add: Nil kt member_text_def QuoteJSONString_def skip_ws_Cons parse_member_key pv kvs e
           del: parse_string_body.simps)
  next
    case (Cons kt' kts')
    from r have pv: "parse_value (t @ 0x2C # join_comma (map member_text kts) @ 0x7D # rest)
        = Some (v, 0x2C # join_comma (map member_text kts) @ 0x7D # rest)"
      by (simp add: renders_def)
    from Cons.IH [OF rest] Cons
    have ih: "parse_members (join_comma (map member_text kts) @ 0x7D # rest) = Some (kvs', rest)"
      by simp
    have j: "join_comma (map member_text (kt # kts))
        = QuoteJSONString k @ 0x3A # t @ 0x2C # join_comma (map member_text kts)"
      by (simp add: Cons kt member_text_def)
    show ?thesis
      unfolding j
      by (subst parse_members.simps)
         (simp add: QuoteJSONString_def skip_ws_Cons parse_member_key pv ih kvs cons_result_def
           del: parse_string_body.simps)
  qed
qed

lemma renders_object:
  assumes "list_all2 member_renders kts kvs"
  shows "renders (SerializeJSONObject kts) (JObj kvs)"
proof (cases kts)
  case Nil
  with assms have "kvs = []" by simp
  with Nil show ?thesis
    by (simp add: renders_def SerializeJSONObject_def parse_value.simps skip_ws_Cons)
next
  case (Cons kt kts')
  obtain k t where kt: "kt = (k, t)" by (cases kt)
  have ne: "kts \<noteq> []" using Cons by simp
  have hd: "skip_ws (join_comma (map member_text kts) @ 0x7D # rest)
      = join_comma (map member_text kts) @ 0x7D # rest
    \<and> (\<exists>r. join_comma (map member_text kts) @ 0x7D # rest = 0x22 # r)" for rest
    by (cases kts') (simp_all add: Cons kt member_text_def QuoteJSONString_def skip_ws_Cons)
  show ?thesis
    unfolding renders_def
  proof
    fix rest
    from hd [of rest] obtain r where
      sk: "skip_ws (join_comma (map member_text kts) @ 0x7D # rest) = 0x22 # r"
      by auto
    have pm: "parse_members (join_comma (map member_text kts) @ 0x7D # rest) = Some (kvs, rest)"
      by (rule parse_members_join [OF assms ne])
    have eq: "SerializeJSONObject kts @ rest = 0x7B # join_comma (map member_text kts) @ 0x7D # rest"
      by (simp add: SerializeJSONObject_def member_text_def)
    show "parse_value (SerializeJSONObject kts @ rest) = Some (JObj kvs, rest)"
      by (subst parse_value.simps) (simp add: eq skip_ws_Cons sk pm)
  qed
qed

subsection \<open>Reading back the typed values\<close>

lemma renders_Model: "renders (stringify_Model m) (js_of_Model m)"
  unfolding stringify_Model_def js_of_Model_def
  by (rule renders_object) (simp add: member_renders_def renders_string renders_true renders_false)

lemma renders_Models:
  "renders (SerializeJSONArray (map stringify_Model ms)) (JArr (map js_of_Model ms))"
  by (rule renders_array) (simp add: list_all2_map1 list_all2_map2 list_all2_same renders_Model)

lemma renders_Provider: "renders (stringify_Provider p) (js_of_Provider p)"
  unfolding stringify_Provider_def js_of_Provider_def
  by (rule renders_object)
     (simp add: member_renders_def renders_string renders_Models split: option.splits)

lemma renders_providers: "renders (JSON_stringify ps) (js_of_providers ps)"
  unfolding JSON_stringify_def js_of_providers_def
  by (rule renders_array) (simp add: list_all2_map1 list_all2_map2 list_all2_same renders_Provider)

lemma JSON_parse_stringify: "JSON_parse (JSON_stringify ps) = Some (js_of_providers ps)"
  using renders_providers [of ps, unfolded renders_def, rule_format, of "[]"]
  by (simp add: JSON_parse_def skip_ws_def)

subsection \<open>Blank texts do not parse\<close>

lemma dropWhile_all_or_stop:
  "(\<forall>x\<in>set (dropWhile P s). P x) \<Longrightarrow> dropWhile P s = []"
proof (rule ccontr)
  assume all: "\<forall>x\<in>set (dropWhile P s). P x" and ne: "dropWhile P s \<noteq> []"
  from ne have "\<not> P (hd (dropWhile P s))" by (rule hd_dropWhile)
  moreover from ne have "hd (dropWhile P s) \<in> set (dropWhile P s)" by simp
  ultimately show False using all by blast
qed

lemma trim_empty_iff: "(trim s = []) = (\<forall>c\<in>set s. is_js_whitespace c)"
proof
  assume "trim s = []"
  then have "dropWhile is_js_whitespace (rev (dropWhile is_js_whitespace s)) = []"
    by (simp add: trim_def)
  then have "\<forall>x\<in>set (rev (dropWhile is_js_whitespace s)). is_js_whitespace x"
    by (rule dropWhile_eq_Nil_conv [THEN iffD1])
  then have "\<forall>x\<in>set (dropWhile is_js_whitespace s). is_js_whitespace x"
    by simp
  then have "dropWhile is_js_whitespace s = []"
    by (rule dropWhile_all_or_stop)
  then show "\<forall>c\<in>set s. is_js_whitespace c"
    by (rule dropWhile_eq_Nil_conv [THEN iffD1])
next
  assume "\<forall>c\<in>set s. is_js_whitespace c"
  then have "dropWhile is_js_whitespace s = []"
    by (rule dropWhile_eq_Nil_conv [THEN iffD2])
  then show "trim s = []" by (simp only: trim_def rev.simps dropWhile.simps)
qed

lemma whitespace_not_value_start:
  assumes "is_js_whitespace c" and "\<not> is_json_ws c"
  shows "c \<noteq> 0x22" "c \<noteq> 0x5B" "c \<noteq> 0x7B" "c \<noteq> 0x74" "c \<noteq> 0x66" "c \<noteq> 0x6E"
    "c \<noteq> 0x2D" "\<not> is_ascii_digit c"
  using assms
  by (auto simp: is_js_whitespace_def is_json_ws_def is_ascii_digit_def word_le_nat_alt)

lemma parse_value_blank:
  assumes "\<forall>c\<in>set s. is_js_whitespace c"
  shows "parse_value s = None"
proof (cases "skip_ws s")
  case Nil
  then show ?thesis by (simp add: parse_value.simps)
next
  case (Cons c r)
  then have ne: "dropWhile is_json_ws s \<noteq> []" and c: "c = hd (dropWhile is_json_ws s)"
    by (simp_all add: skip_ws_def)
  from ne have nws: "\<not> is_json_ws c" unfolding c by (rule hd_dropWhile)
  from ne have "c \<in> set (dropWhile is_json_ws s)" unfolding c by simp
  then have "c \<in> set s" by (rule set_dropWhileD)
  with assms have ws: "is_js_whitespace c" by blast
  show ?thesis
    by (subst parse_value.simps) (simp add: Cons whitespace_not_value_start [OF ws nws])
qed

lemma JSON_parse_blank: "trim s = [] \<Longrightarrow> JSON_parse s = None"
  by (simp add: JSON_parse_def parse_value_blank trim_empty_iff)

subsection \<open>The output has one line\<close>

lemma one_line_simps [simp]:
  "one_line []"
  "one_line (c # s) = (c \<noteq> 0x0A \<and> c \<noteq> 0x0D \<and> one_line s)"
  "one_line (a @ b) = (one_line a \<and> one_line b)"
  by (auto simp: one_line_def)

lemma hex_digit_one_line: "n < 16 \<Longrightarrow> hex_digit n \<noteq> 0x0A \<and> hex_digit n \<noteq> 0x0D"
  unfolding hex_digit_def
  by (auto simp: word_less_nat_alt word_le_nat_alt unat_word_ariths word_unat_eq_iff)

lemma div_mod_lt16: "(c :: code_unit) div n mod 0x10 < 16"
  by (rule mod_lt16)

lemma one_line_UnicodeEscape: "one_line (UnicodeEscape c)"
  using hex_digit_one_line [OF div_lt16 [of c]] hex_digit_one_line [OF mod_lt16 [of c]]
    hex_digit_one_line [OF mod_lt16 [of "c div 0x100"]] hex_digit_one_line [OF mod_lt16 [of "c div 0x10"]]
  by (simp add: UnicodeEscape_def)

lemma one_line_quote_unit: "one_line (quote_unit c)"
  by (simp add: quote_unit_def one_line_UnicodeEscape)

lemma one_line_quote_units: "one_line (quote_units s)"
proof (induction s rule: quote_units.induct)
  case 1
  show ?case by simp
next
  case (2 c)
  show ?case by (simp add: one_line_quote_unit)
next
  case (3 c d r)
  show ?case
  proof (cases "is_leading_surrogate c \<and> is_trailing_surrogate d")
    case True
    then have "c \<noteq> 0x0A \<and> c \<noteq> 0x0D \<and> d \<noteq> 0x0A \<and> d \<noteq> 0x0D"
      by (auto simp: is_leading_surrogate_def is_trailing_surrogate_def)
    with True 3(1) show ?thesis by simp
  next
    case False
    then have eq: "quote_units (c # d # r) = quote_unit c @ quote_units (d # r)"
      by auto
    from False 3(2) have "one_line (quote_units (d # r))" by blast
    then show ?thesis by (simp only: eq one_line_simps one_line_quote_unit)
  qed
qed

lemma one_line_QuoteJSONString: "one_line (QuoteJSONString s)"
  by (simp add: QuoteJSONString_def one_line_quote_units)

lemma one_line_join_comma: "\<forall>x\<in>set xs. one_line x \<Longrightarrow> one_line (join_comma xs)"
  by (induction xs rule: join_comma.induct) simp_all

lemma one_line_SerializeJSONArray:
  "\<forall>x\<in>set xs. one_line x \<Longrightarrow> one_line (SerializeJSONArray xs)"
  by (simp add: SerializeJSONArray_def one_line_join_comma)

lemma one_line_SerializeJSONObject:
  "\<forall>x\<in>set kts. one_line (snd x) \<Longrightarrow> one_line (SerializeJSONObject kts)"
  unfolding SerializeJSONObject_def
  by (fastforce intro!: one_line_join_comma simp: one_line_QuoteJSONString)

lemma one_line_stringify_Model: "one_line (stringify_Model m)"
  unfolding stringify_Model_def
  by (rule one_line_SerializeJSONObject) (simp add: one_line_QuoteJSONString js_def)

lemma one_line_stringify_Provider: "one_line (stringify_Provider p)"
  unfolding stringify_Provider_def
  by (rule one_line_SerializeJSONObject)
     (auto simp: one_line_QuoteJSONString one_line_stringify_Model
        intro!: one_line_SerializeJSONArray split: option.splits)

lemma one_line_JSON_stringify: "one_line (JSON_stringify ps)"
  unfolding JSON_stringify_def
  by (rule one_line_SerializeJSONArray) (auto simp: one_line_stringify_Provider)

subsection \<open>A failed parse reports an issue\<close>

lemma reports_Valid [simp]: "reports (Valid x)"
  by (simp add: reports_def)

lemma reports_zap: "reports a \<Longrightarrow> reports b \<Longrightarrow> reports (zap a b)"
  by (cases a; cases b) (simp_all add: reports_def)

lemma reports_z_string_min1: "reports (z_string_min1 msg p v)"
  by (cases v) (simp_all add: z_string_min1_def reports_def)

lemma reports_z_boolean: "reports (z_boolean p v)"
  by (cases v) (simp_all add: z_boolean_def reports_def)

lemma reports_z_elements:
  assumes "\<And>q x. reports (el q x)"
  shows "reports (z_elements el p i xs)"
  by (induction xs arbitrary: i) (simp_all add: reports_zap assms del: zap.simps)

lemma reports_z_array:
  assumes "\<And>q x. reports (el q x)"
  shows "reports (z_array ml el p v)"
proof (cases v)
  case (JArr xs)
  have "reports (case ml of None \<Rightarrow> Valid ()
      | Some (n, msg) \<Rightarrow> if length xs < n then Dirty [Issue too_small p (Some msg)] else Valid ())"
    by (simp add: reports_def split: option.splits)
  then show ?thesis
    by (simp add: JArr z_array_def reports_zap reports_z_elements assms del: zap.simps)
qed (simp_all add: z_array_def reports_def)

lemma reports_baseUrlSchema: "reports (baseUrlSchema U p v)"
  by (cases v)
     (simp_all add: baseUrlSchema_def z_or_def z_optional_def z_string_url_def z_literal_empty_def
       reports_def)

lemma reports_ModelSchema: "reports (ModelSchema p v)"
  by (cases v)
     (simp_all add: ModelSchema_def field_def reports_zap reports_z_string_min1 reports_z_boolean
        del: zap.simps, simp_all add: reports_def)

lemma reports_ProviderSchema: "reports (ProviderSchema U p v)"
  by (cases v)
     (simp_all add: ProviderSchema_def field_def reports_zap reports_z_string_min1
        reports_baseUrlSchema reports_z_array reports_ModelSchema
        del: zap.simps, simp_all add: reports_def)

lemma reports_ProvidersListSchema: "reports (ProvidersListSchema U p v)"
  by (simp add: ProvidersListSchema_def reports_z_array reports_ProviderSchema)

lemma safeParse_Inl_reports:
  "safeParse s v = Inl e \<Longrightarrow> reports (s [] v) \<Longrightarrow> e \<noteq> []"
  by (cases "s [] v") (auto simp: safeParse_def reports_def)

subsection \<open>Validity of typed values\<close>

lemma safeParse_Provider_typed:
  "safeParse (ProviderSchema U) (js_of_Provider pr)
     = (if Provider_issues U [] pr = [] then Inr pr else Inl (Provider_issues U [] pr))"
  by (rule safeParse_zres_of) (rule ProviderSchema_js_of_Provider)

lemma safeParse_providers_typed:
  "safeParse (ProvidersListSchema U) (js_of_providers ps)
     = (if elements_issues (Provider_issues U) [] 0 ps = [] then Inr ps
        else Inl (elements_issues (Provider_issues U) [] 0 ps))"
  by (rule safeParse_zres_of) (rule ProvidersListSchema_typed)

lemma safeParse_Form_typed:
  "safeParse (FormSchema U) (js_of_FormValues f)
     = (if Form_issues U f = [] then Inr f else Inl (Form_issues U f))"
  by (rule safeParse_zres_of) (rule FormSchema_typed)

lemma Model_issues_path: "(Model_issues p m = []) = (Model_issues q m = [])"
  by (simp add: Model_issues_def)

lemma elements_issues_empty_path:
  assumes "\<And>p q x. (iss p x = []) = (iss q x = [])"
  shows "(elements_issues iss p i xs = []) = (\<forall>x\<in>set xs. iss [] x = [])"
proof (induction xs arbitrary: i)
  case Nil
  show ?case by simp
next
  case (Cons x xs)
  show ?case using assms [of "p @ [Idx i]" x "[]"] by (simp add: Cons.IH)
qed

lemma Provider_issues_path: "(Provider_issues U p pr = []) = (Provider_issues U q pr = [])"
  by (simp add: Provider_issues_def baseUrl_issues_def
      elements_issues_empty_path [where iss = Model_issues, OF Model_issues_path]
      split: option.splits)

lemma Model_issues_empty: "(Model_issues p m = []) = (apiName m \<noteq> [] \<and> uiName m \<noteq> [])"
  by (simp add: Model_issues_def)

lemma Provider_issues_empty:
  "(Provider_issues U p pr = []) =
     (provider pr \<noteq> [] \<and> apiKeyEnvVar pr \<noteq> []
      \<and> (case baseUrl pr of None \<Rightarrow> True | Some u \<Rightarrow> u = [] \<or> new_URL_ok U u)
      \<and> models pr \<noteq> []
      \<and> (\<forall>m\<in>set (models pr). apiName m \<noteq> [] \<and> uiName m \<noteq> []))"
  by (auto simp: Provider_issues_def baseUrl_issues_def Model_issues_empty
      elements_issues_empty_path [where iss = Model_issues, OF Model_issues_path]
      split: option.splits)

lemma providers_issues_empty:
  "(elements_issues (Provider_issues U) p i ps = []) = (\<forall>pr\<in>set ps. Provider_issues U [] pr = [])"
  by (rule elements_issues_empty_path) (rule Provider_issues_path)

lemma valid_providers_iff:
  "(\<forall>pr\<in>set ps. safeParse (ProviderSchema U) (js_of_Provider pr) = Inr pr)
     = (\<forall>pr\<in>set ps. Provider_issues U [] pr = [])"
  by (simp add: safeParse_Provider_typed)

subsection \<open>Import of a text that parses\<close>

lemma trim_JSON_stringify: "trim (JSON_stringify ps) \<noteq> []"
proof -
  have "0x5B \<in> set (JSON_stringify ps)"
    by (simp add: JSON_stringify_def SerializeJSONArray_def)
  moreover have "\<not> is_js_whitespace 0x5B"
    by (simp add: is_js_whitespace_def)
  ultimately show ?thesis
    unfolding trim_empty_iff by blast
qed

lemma handleImport_parsed:
  assumes "JSON_parse jsonText = Some v"
  shows "handleImport U (setImportJson jsonText st) =
     (case safeParse (ProvidersListSchema U) v of
        Inl issues \<Rightarrow>
          (setImportJson jsonText st,
           [console_error_ZodError issues,
            toast_error (js ''Invalid JSON structure.'')
              (js ''The provided JSON does not match the required schema. Check console for details.'')])
      | Inr data \<Rightarrow>
          ((setImportJson jsonText st)\<lparr>form := \<lparr>providers = data\<rparr>\<rparr>,
           [toast_success (js ''Import Successful!'')
              (js ''The form has been updated with your data.'')]))"
proof -
  from assms have "trim jsonText \<noteq> []"
    using JSON_parse_blank [of jsonText] by auto
  with assms show ?thesis
    by (simp add: handleImport_def setImportJson_def split: sum.split)
qed

lemma defaultValues_valid:
  assumes "new_URL_ok U (js ''https://api.groq.com/openai/v1'')"
  shows "\<forall>pr\<in>set (providers defaultValues). safeParse (ProviderSchema U) (js_of_Provider pr) = Inr pr"
  using assms
  by (simp add: defaultValues_def safeParse_Provider_typed Provider_issues_def baseUrl_issues_def
      Model_issues_def) (simp add: js_def)

lemma new_URL_ok_groq:
  "new_URL_ok (\<lambda>scheme rest. True) (js ''https://api.groq.com/openai/v1'')"
  by (simp add: new_URL_ok_def url_preprocess_def scheme_start_state_def js_def
      is_c0_or_space_def is_tab_or_newline_def is_ascii_alpha_def is_ascii_digit_def ascii_lower_def)

lemma groq_text:
  "JSON_stringify (providers defaultValues) =
     js ''[{\"provider\":\"Groq\",\"apiKeyEnvVar\":\"GROQ_API_KEY\",\"baseUrl\":\"https://api.groq.com/openai/v1\",\"models\":[{\"apiName\":\"llama3-8b-8192\",\"uiName\":\"Llama 3 8B\",\"supportsTools\":true}]}]''"
  by code_simp

subsection \<open>The text of an object, key by key\<close>

lemma quoted_keys:
  "QuoteJSONString (js ''apiName'') = js ''\"apiName\"''"
  "QuoteJSONString (js ''uiName'') = js ''\"uiName\"''"
  "QuoteJSONString (js ''supportsTools'') = js ''\"supportsTools\"''"
  "QuoteJSONString (js ''provider'') = js ''\"provider\"''"
  "QuoteJSONString (js ''apiKeyEnvVar'') = js ''\"apiKeyEnvVar\"''"
  "QuoteJSONString (js ''baseUrl'') = js ''\"baseUrl\"''"
  "QuoteJSONString (js ''models'') = js ''\"models\"''"
  by code_simp+

lemma js_append: "js (a @ b) = js a @ js b"
  by (simp add: js_def)

lemma stringify_Model_text:
  "stringify_Model m =
     js ''{\"apiName\":'' @ QuoteJSONString (apiName m)
     @ js '',\"uiName\":'' @ QuoteJSONString (uiName m)
     @ js '',\"supportsTools\":'' @ (if supportsTools m then js ''true'' else js ''false'')
     @ js ''}''"
  unfolding stringify_Model_def SerializeJSONObject_def
  by (simp add: quoted_keys) (simp add: js_def)

lemma stringify_Provider_text:
  "stringify_Provider p =
     js ''{\"provider\":'' @ QuoteJSONString (provider p)
     @ js '',\"apiKeyEnvVar\":'' @ QuoteJSONString (apiKeyEnvVar p)
     @ (case baseUrl p of None \<Rightarrow> [] | Some u \<Rightarrow> js '',\"baseUrl\":'' @ QuoteJSONString u)
     @ js '',\"models\":'' @ SerializeJSONArray (map stringify_Model (models p))
     @ js ''}''"
  unfolding stringify_Provider_def SerializeJSONObject_def
  by (cases "baseUrl p") (simp_all add: quoted_keys, simp_all add: js_def)

lemma groq_json_stringify: "JSON_stringify (providers defaultValues) = groq_json"
  by code_simp

section \<open>The claims\<close>

text \<open>
  Claim C1. For every valid configuration \<open>C\<close> (a list of providers, each of which the
  provider schema accepts), Generate JSON stores \<open>JSON.stringify(C)\<close> as the output; parsing
  that text gives back the array of objects of \<open>C\<close>, the list schema accepts it and returns
  \<open>C\<close> itself, and importing the text into any state replaces the providers of the form
  by \<open>C\<close>.
\<close>

theorem submit_then_import_round_trip:
  assumes "\<forall>pr\<in>set C. safeParse (ProviderSchema U) (js_of_Provider pr) = Inr pr"
  shows "handleSubmit U (st\<lparr>form := \<lparr>providers = C\<rparr>\<rparr>)
           = (st\<lparr>form := \<lparr>providers = C\<rparr>, outputJson := JSON_stringify C\<rparr>,
              [toast_success (js ''JSON Generated!'')
                 (js ''The one-line JSON has been created below.'')])
    \<and> JSON_parse (JSON_stringify C) = Some (js_of_providers C)
    \<and> safeParse (ProvidersListSchema U) (js_of_providers C) = Inr C
    \<and> handleImport U (setImportJson (JSON_stringify C) st')
           = ((setImportJson (JSON_stringify C) st')\<lparr>form := \<lparr>providers = C\<rparr>\<rparr>,
              [toast_success (js ''Import Successful!'')
                 (js ''The form has been updated with your data.'')])"
proof -
  from assms have ok: "\<forall>pr\<in>set C. Provider_issues U [] pr = []"
    by (simp only: valid_providers_iff)
  then have f: "Form_issues U \<lparr>providers = C\<rparr> = []"
    by (simp add: Form_issues_def providers_issues_empty)
  have a: "handleSubmit U (st\<lparr>form := \<lparr>providers = C\<rparr>\<rparr>)
           = (st\<lparr>form := \<lparr>providers = C\<rparr>, outputJson := JSON_stringify C\<rparr>,
              [toast_success (js ''JSON Generated!'')
                 (js ''The one-line JSON has been created below.'')])"
    by (simp add: handleSubmit_eq f onSubmit_def)
  have b: "JSON_parse (JSON_stringify C) = Some (js_of_providers C)"
    by (rule JSON_parse_stringify)
  have c: "safeParse (ProvidersListSchema U) (js_of_providers C) = Inr C"
    using ok by (simp add: safeParse_providers_typed providers_issues_empty)
  have d: "handleImport U (setImportJson (JSON_stringify C) st')
           = ((setImportJson (JSON_stringify C) st')\<lparr>form := \<lparr>providers = C\<rparr>\<rparr>,
              [toast_success (js ''Import Successful!'')
                 (js ''The form has been updated with your data.'')])"
    by (simp add: handleImport_parsed [OF b] c)
  from a b c d show ?thesis by blast
qed

theorem submit_then_import_round_trip_witness:
  "(\<exists>pr. providers defaultValues = [pr]
         \<and> safeParse (ProviderSchema (\<lambda>scheme rest. True)) (js_of_Provider pr) = Inr pr)
   \<and> JSON_parse (JSON_stringify (providers defaultValues)) = Some (js_of_providers (providers defaultValues))
   \<and> form (fst (handleImport (\<lambda>scheme rest. True)
        (setImportJson (JSON_stringify (providers defaultValues)) (appendProvider initial_state))))
       = defaultValues"
proof -
  have h: "\<forall>pr\<in>set (providers defaultValues).
      safeParse (ProviderSchema (\<lambda>scheme rest. True)) (js_of_Provider pr) = Inr pr"
    by (rule defaultValues_valid [OF new_URL_ok_groq])
  then have h': "\<exists>pr. providers defaultValues = [pr]
         \<and> safeParse (ProviderSchema (\<lambda>scheme rest. True)) (js_of_Provider pr) = Inr pr"
    by (simp add: defaultValues_def)
  from submit_then_import_round_trip [OF h, of initial_state "appendProvider initial_state"] h'
  show ?thesis by simp
qed

text \<open>
  Claim C2. Import is atomic on a validation failure: when the text parses as JSON and the list
  schema rejects the parsed value, the state after \<open>handleImport\<close> is the state before it,
  the issues (at least one) are logged to the console and the toast says that the structure is
  invalid.
\<close>

theorem import_validation_failure_keeps_state:
  assumes "JSON_parse jsonText = Some v"
    and "safeParse (ProvidersListSchema U) v = Inl issues"
  shows "handleImport U (setImportJson jsonText st) =
           (setImportJson jsonText st,
            [console_error_ZodError issues,
             toast_error (js ''Invalid JSON structure.'')
               (js ''The provided JSON does not match the required schema. Check console for details.'')])
    \<and> issues \<noteq> []
    \<and> form (fst (handleImport U (setImportJson jsonText st))) = form st
    \<and> outputJson (fst (handleImport U (setImportJson jsonText st))) = outputJson st"
proof -
  have a: "handleImport U (setImportJson jsonText st) =
           (setImportJson jsonText st,
            [console_error_ZodError issues,
             toast_error (js ''Invalid JSON structure.'')
               (js ''The provided JSON does not match the required schema. Check console for details.'')])"
    by (simp add: handleImport_parsed [OF assms(1)] assms(2))
  have b: "issues \<noteq> []"
    by (rule safeParse_Inl_reports [OF assms(2) reports_ProvidersListSchema])
  show ?thesis by (simp add: a b) (simp add: setImportJson_def)
qed

theorem import_validation_failure_keeps_state_witness:
  "JSON_parse (js ''[{\"provider\":\"\",\"apiKeyEnvVar\":\"X\",\"models\":[]}]'')
     = Some (JArr [JObj [(js ''provider'', JStr []), (js ''apiKeyEnvVar'', JStr (js ''X'')),
                         (js ''models'', JArr [])]])
   \<and> safeParse (ProvidersListSchema (\<lambda>scheme rest. True))
        (JArr [JObj [(js ''provider'', JStr []), (js ''apiKeyEnvVar'', JStr (js ''X'')),
                     (js ''models'', JArr [])]])
     = Inl [Issue too_small [Idx 0, Key (js ''provider'')] (Some (js ''Provider name is required.'')),
            Issue too_small [Idx 0, Key (js ''models'')] (Some (js ''At least one model is required.''))]
   \<and> form (fst (handleImport (\<lambda>scheme rest. True)
        (setImportJson (js ''[{\"provider\":\"\",\"apiKeyEnvVar\":\"X\",\"models\":[]}]'') initial_state)))
     = defaultValues
   \<and> snd (handleImport (\<lambda>scheme rest. True)
        (setImportJson (js ''[{\"provider\":\"\",\"apiKeyEnvVar\":\"X\",\"models\":[]}]'') initial_state))
     = [console_error_ZodError
          [Issue too_small [Idx 0, Key (js ''provider'')] (Some (js ''Provider name is required.'')),
           Issue too_small [Idx 0, Key (js ''models'')] (Some (js ''At least one model is required.''))],
        toast_error (js ''Invalid JSON structure.'')
          (js ''The provided JSON does not match the required schema. Check console for details.'')]"
proof -
  have h1: "JSON_parse (js ''[{\"provider\":\"\",\"apiKeyEnvVar\":\"X\",\"models\":[]}]'')
     = Some (JArr [JObj [(js ''provider'', JStr []), (js ''apiKeyEnvVar'', JStr (js ''X'')),
                         (js ''models'', JArr [])]])"
    by code_simp
  have h2: "safeParse (ProvidersListSchema (\<lambda>scheme rest. True))
        (JArr [JObj [(js ''provider'', JStr []), (js ''apiKeyEnvVar'', JStr (js ''X'')),
                     (js ''models'', JArr [])]])
     = Inl [Issue too_small [Idx 0, Key (js ''provider'')] (Some (js ''Provider name is required.'')),
            Issue too_small [Idx 0, Key (js ''models'')] (Some (js ''At least one model is required.''))]"
    by code_simp
  from import_validation_failure_keeps_state [OF h1 h2, of initial_state] h1 h2
  show ?thesis by (simp add: initial_state_def setImportJson_def)
qed

text \<open>
  Claim C3. When the values of the form pass validation, Generate JSON stores the serialized
  providers, a text with no line feed and no carriage return, with the keys of every provider
  in the order \<open>provider\<close>, \<open>apiKeyEnvVar\<close>, \<open>baseUrl\<close> (left out when absent),
  \<open>models\<close> and the keys of every model in the order \<open>apiName\<close>, \<open>uiName\<close>,
  \<open>supportsTools\<close>. In particular, when the URL parser of the platform accepts the Groq base
  URL, importing the example text succeeds and Generate JSON then yields exactly that text.
\<close>

theorem submit_serializes_one_line_in_key_order:
  "(safeParse (FormSchema U) (js_of_FormValues (form st)) = Inr data \<longrightarrow>
      handleSubmit U st =
        (st\<lparr>outputJson := JSON_stringify (providers (form st))\<rparr>,
         [toast_success (js ''JSON Generated!'') (js ''The one-line JSON has been created below.'')])
      \<and> 0x0A \<notin> set (JSON_stringify (providers (form st)))
      \<and> 0x0D \<notin> set (JSON_stringify (providers (form st))))
   \<and> JSON_stringify ps = js ''['' @ join_comma (map stringify_Provider ps) @ js '']''
   \<and> stringify_Provider p =
       js ''{\"provider\":'' @ QuoteJSONString (provider p)
       @ js '',\"apiKeyEnvVar\":'' @ QuoteJSONString (apiKeyEnvVar p)
       @ (case baseUrl p of None \<Rightarrow> [] | Some u \<Rightarrow> js '',\"baseUrl\":'' @ QuoteJSONString u)
       @ js '',\"models\":['' @ join_comma (map stringify_Model (models p)) @ js '']}''
   \<and> stringify_Model m =
       js ''{\"apiName\":'' @ QuoteJSONString (apiName m)
       @ js '',\"uiName\":'' @ QuoteJSONString (uiName m)
       @ js '',\"supportsTools\":'' @ (if supportsTools m then js ''true'' else js ''false'')
       @ js ''}''
   \<and> (new_URL_ok U (js ''https://api.groq.com/openai/v1'') \<longrightarrow>
        handleImport U (setImportJson groq_json st') =
          ((setImportJson groq_json st')\<lparr>form := defaultValues\<rparr>,
           [toast_success (js ''Import Successful!'') (js ''The form has been updated with your data.'')])
        \<and> handleSubmit U ((setImportJson groq_json st')\<lparr>form := defaultValues\<rparr>) =
          ((setImportJson groq_json st')\<lparr>form := defaultValues, outputJson := groq_json\<rparr>,
           [toast_success (js ''JSON Generated!'') (js ''The one-line JSON has been created below.'')]))"
proof -
  have a: "handleSubmit U st =
        (st\<lparr>outputJson := JSON_stringify (providers (form st))\<rparr>,
         [toast_success (js ''JSON Generated!'') (js ''The one-line JSON has been created below.'')])"
    if "safeParse (FormSchema U) (js_of_FormValues (form st)) = Inr data"
    using that by (simp add: handleSubmit_def onSubmit_def safeParse_Form_typed split: if_splits)
  have b: "0x0A \<notin> set (JSON_stringify ps) \<and> 0x0D \<notin> set (JSON_stringify ps)" for ps
    using one_line_JSON_stringify [of ps] by (simp add: one_line_def)
  have c: "JSON_stringify ps = js ''['' @ join_comma (map stringify_Provider ps) @ js '']''"
    by (simp add: JSON_stringify_def SerializeJSONArray_def js_def)
  have d: "stringify_Provider p =
       js ''{\"provider\":'' @ QuoteJSONString (provider p)
       @ js '',\"apiKeyEnvVar\":'' @ QuoteJSONString (apiKeyEnvVar p)
       @ (case baseUrl p of None \<Rightarrow> [] | Some u \<Rightarrow> js '',\"baseUrl\":'' @ QuoteJSONString u)
       @ js '',\"models\":['' @ join_comma (map stringify_Model (models p)) @ js '']}''"
    by (simp add: stringify_Provider_text SerializeJSONArray_def) (simp add: js_def)
  have e: "stringify_Model m =
       js ''{\"apiName\":'' @ QuoteJSONString (apiName m)
       @ js '',\"uiName\":'' @ QuoteJSONString (uiName m)
       @ js '',\"supportsTools\":'' @ (if supportsTools m then js ''true'' else js ''false'')
       @ js ''}''"
    by (rule stringify_Model_text)
  have f: "handleImport U (setImportJson groq_json st') =
          ((setImportJson groq_json st')\<lparr>form := defaultValues\<rparr>,
           [toast_success (js ''Import Successful!'') (js ''The form has been updated with your data.'')])
        \<and> handleSubmit U ((setImportJson groq_json st')\<lparr>form := defaultValues\<rparr>) =
          ((setImportJson groq_json st')\<lparr>form := defaultValues, outputJson := groq_json\<rparr>,
           [toast_success (js ''JSON Generated!'') (js ''The one-line JSON has been created below.'')])"
    if u: "new_URL_ok U (js ''https://api.groq.com/openai/v1'')"
  proof -
    have v: "\<forall>pr\<in>set (providers defaultValues). Provider_issues U [] pr = []"
      using defaultValues_valid [OF u] by (simp only: valid_providers_iff)
    have p: "JSON_parse groq_json = Some (js_of_providers (providers defaultValues))"
      using JSON_parse_stringify [of "providers defaultValues"] by (simp only: groq_json_stringify)
    have s: "safeParse (ProvidersListSchema U) (js_of_providers (providers defaultValues))
        = Inr (providers defaultValues)"
      using v by (simp add: safeParse_providers_typed providers_issues_empty)
    have dv: "\<lparr>providers = providers defaultValues\<rparr> = defaultValues"
      by simp
    have i: "handleImport U (setImportJson groq_json st') =
          ((setImportJson groq_json st')\<lparr>form := defaultValues\<rparr>,
           [toast_success (js ''Import Successful!'') (js ''The form has been updated with your data.'')])"
      by (simp add: handleImport_parsed [OF p] s dv)
    have fi: "Form_issues U defaultValues = []"
      using v by (simp add: Form_issues_def providers_issues_empty)
    have g: "handleSubmit U ((setImportJson groq_json st')\<lparr>form := defaultValues\<rparr>) =
          ((setImportJson groq_json st')\<lparr>form := defaultValues, outputJson := groq_json\<rparr>,
           [toast_success (js ''JSON Generated!'') (js ''The one-line JSON has been created below.'')])"
      by (simp add: handleSubmit_eq fi onSubmit_def groq_json_stringify)
    from i g show ?thesis by blast
  qed
  from a b c d e f show ?thesis by blast
qed

theorem submit_serializes_one_line_in_key_order_witness:
  "safeParse (FormSchema (\<lambda>scheme rest. True)) (js_of_FormValues (form initial_state)) = Inr defaultValues
   \<and> new_URL_ok (\<lambda>scheme rest. True) (js ''https://api.groq.com/openai/v1'')
   \<and> outputJson (fst (handleSubmit (\<lambda>scheme rest. True) initial_state)) = groq_json
   \<and> form (fst (handleImport (\<lambda>scheme rest. True) (setImportJson groq_json (appendProvider initial_state))))
       = defaultValues
   \<and> outputJson (fst (handleSubmit (\<lambda>scheme rest. True)
        ((setImportJson groq_json (appendProvider initial_state))\<lparr>form := defaultValues\<rparr>))) = groq_json"
proof -
  let ?U = "\<lambda>(scheme :: jsstring) (rest :: jsstring). True"
  have u: "new_URL_ok ?U (js ''https://api.groq.com/openai/v1'')"
    by (rule new_URL_ok_groq)
  have "\<forall>pr\<in>set (providers defaultValues). Provider_issues ?U [] pr = []"
    using defaultValues_valid [OF u] by (simp only: valid_providers_iff)
  then have "Form_issues ?U defaultValues = []"
    by (simp add: Form_issues_def providers_issues_empty)
  then have h: "safeParse (FormSchema ?U) (js_of_FormValues (form initial_state)) = Inr defaultValues"
    by (simp add: safeParse_Form_typed initial_state_def)
  from submit_serializes_one_line_in_key_order
         [of ?U initial_state defaultValues _ _ _ "appendProvider initial_state"] h u
  show ?thesis
    by (simp add: initial_state_def groq_json_stringify)
qed

text \<open>
  Claim C4, amended. For every text that is not blank (it has a character that
  \<open>trim\<close> keeps) and is not syntactically valid JSON, \<open>handleImport\<close> reports the
  parse error (the toast about the format and the console entry), no validation error, and
  leaves the state as it was.
\<close>

theorem import_non_JSON_reports_parse_error:
  assumes "trim jsonText \<noteq> []" and "JSON_parse jsonText = None"
  shows "handleImport U (setImportJson jsonText st) =
           (setImportJson jsonText st,
            [toast_error (js ''Invalid JSON format.'')
               (js ''Could not parse the JSON. Please check for syntax errors.''),
             console_error_import])
    \<and> form (fst (handleImport U (setImportJson jsonText st))) = form st
    \<and> outputJson (fst (handleImport U (setImportJson jsonText st))) = outputJson st"
  using assms by (simp add: handleImport_def setImportJson_def)

theorem import_non_JSON_reports_parse_error_witness:
  "trim (js ''not json'') \<noteq> []
   \<and> JSON_parse (js ''not json'') = None
   \<and> handleImport (\<lambda>scheme rest. True) (setImportJson (js ''not json'') initial_state) =
       (setImportJson (js ''not json'') initial_state,
        [toast_error (js ''Invalid JSON format.'')
           (js ''Could not parse the JSON. Please check for syntax errors.''),
         console_error_import])
   \<and> form (fst (handleImport (\<lambda>scheme rest. True) (setImportJson (js ''not json'') initial_state)))
       = defaultValues"
proof -
  have h1: "trim (js ''not json'') \<noteq> []" by code_simp
  have h2: "JSON_parse (js ''not json'') = None" by code_simp
  from import_non_JSON_reports_parse_error [OF h1 h2, of "\<lambda>scheme rest. True" initial_state] h1 h2
  show ?thesis by (simp add: initial_state_def setImportJson_def)
qed

text \<open>
  Claim C4 as stated, for every text that is not valid JSON, fails at the empty text: it does
  not parse, and the import reports the empty-input error instead of the parse error.
\<close>

theorem import_empty_text_is_not_a_parse_error:
  "JSON_parse [] = None
   \<and> handleImport (\<lambda>scheme rest. True) (setImportJson [] initial_state) =
       (setImportJson [] initial_state,
        [toast_error (js ''Import field is empty.'') (js ''Please paste your JSON array to import.'')])
   \<and> snd (handleImport (\<lambda>scheme rest. True) (setImportJson [] initial_state)) \<noteq>
       [toast_error (js ''Invalid JSON format.'')
          (js ''Could not parse the JSON. Please check for syntax errors.''),
        console_error_import]"
  by (simp add: JSON_parse_blank trim_def handleImport_def setImportJson_def)

text \<open>
  Claim C5. When a provider of the form has exactly one model, \<open>removeModel\<close> on that model
  goes through and leaves the provider with an empty list of models; Generate JSON then fails
  with an issue at \<open>providers.i.models\<close> saying that at least one model is required, and
  the output is left as it was.
\<close>

theorem removeModel_only_model_then_submit_fails:
  assumes "i < length (providers (form st))"
    and "length (models (providers (form st) ! i)) = 1"
  shows "providers (form (removeModel i 0 st)) =
           (providers (form st))[i := (providers (form st) ! i)\<lparr>models := []\<rparr>]
    \<and> (\<exists>issues.
          handleSubmit U (removeModel i 0 st) = (removeModel i 0 st, [form_errors issues])
          \<and> Issue too_small [Key (js ''providers''), Idx i, Key (js ''models'')]
                (Some (js ''At least one model is required.'')) \<in> set issues)
    \<and> outputJson (fst (handleSubmit U (removeModel i 0 st))) = outputJson st"
proof -
  let ?st = "removeModel i 0 st"
  let ?iss = "Issue too_small [Key (js ''providers''), Idx i, Key (js ''models'')]
                (Some (js ''At least one model is required.''))"
  from assms(2) obtain m where m: "models (providers (form st) ! i) = [m]"
    by (cases "models (providers (form st) ! i)") auto
  have ps: "providers (form ?st) = (providers (form st))[i := (providers (form st) ! i)\<lparr>models := []\<rparr>]"
    using assms(1) by (simp add: removeModel_def update_models_def remove_at_def m)
  have len: "i < length (providers (form ?st))" using assms(1) by (simp add: ps)
  have nth: "models (providers (form ?st) ! i) = []" using assms(1) by (simp add: ps)
  have "?iss \<in> set (Provider_issues U [Key (js ''providers''), Idx i] (providers (form ?st) ! i))"
    by (simp add: Provider_issues_def nth)
  with Form_issues_nth [OF len, of U]
  have mem: "?iss \<in> set (Form_issues U (form ?st))" by blast
  then have ne: "Form_issues U (form ?st) \<noteq> []" by auto
  have out: "outputJson ?st = outputJson st" by (simp add: removeModel_def)
  have sub: "handleSubmit U ?st = (?st, [form_errors (Form_issues U (form ?st))])"
    using ne by (simp add: handleSubmit_eq)
  show ?thesis
    using ps mem out sub by auto
qed

theorem removeModel_only_model_then_submit_fails_witness:
  "0 < length (providers (form initial_state))
   \<and> length (models (providers (form initial_state) ! 0)) = 1
   \<and> providers (form (removeModel 0 0 initial_state)) =
        [\<lparr>provider = js ''Groq'', apiKeyEnvVar = js ''GROQ_API_KEY'',
          baseUrl = Some (js ''https://api.groq.com/openai/v1''), models = []\<rparr>]
   \<and> (\<exists>issues.
          handleSubmit (\<lambda>scheme rest. True) (removeModel 0 0 initial_state)
            = (removeModel 0 0 initial_state, [form_errors issues])
          \<and> Issue too_small [Key (js ''providers''), Idx 0, Key (js ''models'')]
                (Some (js ''At least one model is required.'')) \<in> set issues)
   \<and> outputJson (fst (handleSubmit (\<lambda>scheme rest. True) (removeModel 0 0 initial_state))) = []"
proof -
  have h1: "0 < length (providers (form initial_state))"
    by (simp add: initial_state_def defaultValues_def)
  have h2: "length (models (providers (form initial_state) ! 0)) = 1"
    by (simp add: initial_state_def defaultValues_def)
  show ?thesis
    using removeModel_only_model_then_submit_fails [OF h1 h2, of "\<lambda>scheme rest. True"] h1 h2
    by (simp add: initial_state_def defaultValues_def)
qed

text \<open>
  Claim C6. In every state, Add Provider followed by Generate JSON fails: the errors of the form
  contain the issues of the empty \<open>provider\<close> and \<open>apiKeyEnvVar\<close> of the new provider,
  whose index is the former number of providers, and the output is left as it was.
\<close>

theorem appendProvider_then_submit_fails:
  "\<exists>issues.
     handleSubmit U (appendProvider st) = (appendProvider st, [form_errors issues])
     \<and> Issue too_small [Key (js ''providers''), Idx (length (providers (form st))), Key (js ''provider'')]
           (Some (js ''Provider name is required.'')) \<in> set issues
     \<and> Issue too_small [Key (js ''providers''), Idx (length (providers (form st))), Key (js ''apiKeyEnvVar'')]
           (Some (js ''API Key Env Var is required.'')) \<in> set issues
     \<and> outputJson (fst (handleSubmit U (appendProvider st))) = outputJson st"
proof -
  let ?st = "appendProvider st"
  let ?n = "length (providers (form st))"
  let ?i1 = "Issue too_small [Key (js ''providers''), Idx ?n, Key (js ''provider'')]
           (Some (js ''Provider name is required.''))"
  let ?i2 = "Issue too_small [Key (js ''providers''), Idx ?n, Key (js ''apiKeyEnvVar'')]
           (Some (js ''API Key Env Var is required.''))"
  have n: "?n < length (providers (form ?st))" by (simp add: appendProvider_def)
  have nth: "providers (form ?st) ! ?n =
       \<lparr>provider = [], apiKeyEnvVar = [], baseUrl = Some [],
         models = [\<lparr>apiName = [], uiName = [], supportsTools = False\<rparr>]\<rparr>"
    by (simp add: appendProvider_def)
  have "?i1 \<in> set (Provider_issues U [Key (js ''providers''), Idx ?n] (providers (form ?st) ! ?n))"
    and "?i2 \<in> set (Provider_issues U [Key (js ''providers''), Idx ?n] (providers (form ?st) ! ?n))"
    unfolding nth by (simp_all add: Provider_issues_def)
  with Form_issues_nth [OF n, of U]
  have mem: "?i1 \<in> set (Form_issues U (form ?st))" "?i2 \<in> set (Form_issues U (form ?st))"
    by blast+
  then have ne: "Form_issues U (form ?st) \<noteq> []" by auto
  have out: "outputJson ?st = outputJson st" by (simp add: appendProvider_def)
  from mem ne out show ?thesis
    by (intro exI [of _ "Form_issues U (form ?st)"]) (simp add: handleSubmit_eq)
qed

theorem appendProvider_then_submit_fails_witness:
  "\<exists>issues.
     handleSubmit (\<lambda>scheme rest. True) (appendProvider initial_state)
       = (appendProvider initial_state, [form_errors issues])
     \<and> Issue too_small [Key (js ''providers''), Idx 1, Key (js ''provider'')]
           (Some (js ''Provider name is required.'')) \<in> set issues"
  using appendProvider_then_submit_fails [of "\<lambda>scheme rest. True" initial_state]
  by (auto simp: initial_state_def defaultValues_def)

text \<open>
  Claim C7. The schema of \<open>baseUrl\<close> accepts exactly three kinds of value: an absent one,
  the empty string, and a string that the URL parser accepts. A candidate provider without
  \<open>baseUrl\<close> and the same candidate with \<open>baseUrl\<close> equal to the empty string get the same
  verdict and the same issues; a provider without \<open>baseUrl\<close> is valid exactly when its
  other fields are; and a provider whose \<open>baseUrl\<close> is \<open>not-a-url\<close> is rejected, whatever
  the URL parser does after the scheme.
\<close>

theorem baseUrl_absent_empty_or_url:
  "baseUrlSchema U p JUndefined = Valid None
   \<and> baseUrlSchema U p (JStr []) = Valid (Some [])
   \<and> is_valid (baseUrlSchema U p (JStr u)) = (u = [] \<or> new_URL_ok U u)
   \<and> \<not> is_valid (baseUrlSchema U p (JStr (js ''not-a-url'')))
   \<and> (get_prop kvs (js ''baseUrl'') = JUndefined \<longrightarrow>
        zissues (ProviderSchema U p (JObj (kvs @ [(js ''baseUrl'', JStr [])])))
          = zissues (ProviderSchema U p (JObj kvs))
        \<and> is_valid (ProviderSchema U p (JObj (kvs @ [(js ''baseUrl'', JStr [])])))
          = is_valid (ProviderSchema U p (JObj kvs)))
   \<and> is_valid (ProviderSchema U p (js_of_Provider (pr\<lparr>baseUrl := None\<rparr>)))
       = is_valid (ProviderSchema U p (js_of_Provider (pr\<lparr>baseUrl := Some []\<rparr>)))
   \<and> is_valid (ProviderSchema U p (js_of_Provider (pr\<lparr>baseUrl := None\<rparr>)))
       = (provider pr \<noteq> [] \<and> apiKeyEnvVar pr \<noteq> [] \<and> models pr \<noteq> []
          \<and> (\<forall>m\<in>set (models pr). apiName m \<noteq> [] \<and> uiName m \<noteq> []))
   \<and> \<not> is_valid (ProviderSchema U p (js_of_Provider (pr\<lparr>baseUrl := Some (js ''not-a-url'')\<rparr>)))"
proof -
  have a: "baseUrlSchema U p JUndefined = Valid None" for p
    by (fact baseUrlSchema_JUndefined)
  have b: "baseUrlSchema U p (JStr []) = Valid (Some [])" for p
    by (simp add: baseUrlSchema_JStr baseUrl_issues_def zres_of_def)
  have c: "is_valid (baseUrlSchema U p (JStr u)) = (u = [] \<or> new_URL_ok U u)"
    by (fact is_valid_baseUrlSchema_JStr)
  have d: "\<not> is_valid (baseUrlSchema U p (JStr (js ''not-a-url'')))"
    by (simp add: is_valid_baseUrlSchema_JStr not_a_url_no_scheme) (simp add: js_def)
  have keys: "js ''provider'' \<noteq> js ''baseUrl''" "js ''apiKeyEnvVar'' \<noteq> js ''baseUrl''"
    "js ''models'' \<noteq> js ''baseUrl''"
    by (simp_all add: js_def)
  have e: "zissues (ProviderSchema U p (JObj (kvs @ [(js ''baseUrl'', JStr [])])))
          = zissues (ProviderSchema U p (JObj kvs))
        \<and> is_valid (ProviderSchema U p (JObj (kvs @ [(js ''baseUrl'', JStr [])])))
          = is_valid (ProviderSchema U p (JObj kvs))"
    if "get_prop kvs (js ''baseUrl'') = JUndefined"
    using that keys
    by (simp add: ProviderSchema_def field_def get_prop_append1 zissues_zap is_valid_zap a b
        del: zap.simps)
  have f: "is_valid (ProviderSchema U p (js_of_Provider (pr\<lparr>baseUrl := None\<rparr>)))
       = is_valid (ProviderSchema U p (js_of_Provider (pr\<lparr>baseUrl := Some []\<rparr>)))"
    by (simp add: ProviderSchema_js_of_Provider Provider_issues_def baseUrl_issues_def)
  have g: "\<not> is_valid (ProviderSchema U p (js_of_Provider (pr\<lparr>baseUrl := Some (js ''not-a-url'')\<rparr>)))"
    using not_a_url_no_scheme [of U]
    by (simp add: ProviderSchema_js_of_Provider Provider_issues_def baseUrl_issues_def) (simp add: js_def)
  have h: "is_valid (ProviderSchema U p (js_of_Provider (pr\<lparr>baseUrl := None\<rparr>)))
       = (provider pr \<noteq> [] \<and> apiKeyEnvVar pr \<noteq> [] \<and> models pr \<noteq> []
          \<and> (\<forall>m\<in>set (models pr). apiName m \<noteq> [] \<and> uiName m \<noteq> []))"
    by (simp add: ProviderSchema_js_of_Provider Provider_issues_empty)
  from a b c d e f g h show ?thesis by blast
qed

theorem baseUrl_absent_empty_or_url_witness:
  "get_prop [(js ''provider'', JStr (js ''Groq'')), (js ''apiKeyEnvVar'', JStr (js ''GROQ_API_KEY'')),
             (js ''models'', JArr [js_of_Model \<lparr>apiName = js ''a'', uiName = js ''A'', supportsTools = True\<rparr>])]
      (js ''baseUrl'') = JUndefined
   \<and> is_valid (ProviderSchema (\<lambda>scheme rest. True) []
        (JObj [(js ''provider'', JStr (js ''Groq'')), (js ''apiKeyEnvVar'', JStr (js ''GROQ_API_KEY'')),
               (js ''models'', JArr [js_of_Model \<lparr>apiName = js ''a'', uiName = js ''A'', supportsTools = True\<rparr>])]))
   \<and> is_valid (ProviderSchema (\<lambda>scheme rest. True) []
        (JObj ([(js ''provider'', JStr (js ''Groq'')), (js ''apiKeyEnvVar'', JStr (js ''GROQ_API_KEY'')),
               (js ''models'', JArr [js_of_Model \<lparr>apiName = js ''a'', uiName = js ''A'', supportsTools = True\<rparr>])]
               @ [(js ''baseUrl'', JStr [])])))
   \<and> is_valid (ProviderSchema (\<lambda>scheme rest. True) []
        (js_of_Provider \<lparr>provider = js ''Groq'', apiKeyEnvVar = js ''GROQ_API_KEY'', baseUrl = None,
           models = [\<lparr>apiName = js ''a'', uiName = js ''A'', supportsTools = True\<rparr>]\<rparr>))
   \<and> is_valid (ProviderSchema (\<lambda>scheme rest. True) []
        (js_of_Provider \<lparr>provider = js ''Groq'', apiKeyEnvVar = js ''GROQ_API_KEY'', baseUrl = Some [],
           models = [\<lparr>apiName = js ''a'', uiName = js ''A'', supportsTools = True\<rparr>]\<rparr>))
   \<and> \<not> is_valid (ProviderSchema (\<lambda>scheme rest. True) []
        (js_of_Provider \<lparr>provider = js ''Groq'', apiKeyEnvVar = js ''GROQ_API_KEY'',
           baseUrl = Some (js ''not-a-url''),
           models = [\<lparr>apiName = js ''a'', uiName = js ''A'', supportsTools = True\<rparr>]\<rparr>))
   \<and> \<not> is_valid (baseUrlSchema (\<lambda>scheme rest. True) [] (JStr (js ''not-a-url'')))"
proof -
  let ?kvs = "[(js ''provider'', JStr (js ''Groq'')), (js ''apiKeyEnvVar'', JStr (js ''GROQ_API_KEY'')),
             (js ''models'', JArr [js_of_Model \<lparr>apiName = js ''a'', uiName = js ''A'', supportsTools = True\<rparr>])]"
  let ?pr = "\<lparr>provider = js ''Groq'', apiKeyEnvVar = js ''GROQ_API_KEY'', baseUrl = None,
           models = [\<lparr>apiName = js ''a'', uiName = js ''A'', supportsTools = True\<rparr>]\<rparr>"
  have h: "get_prop ?kvs (js ''baseUrl'') = JUndefined"
    by code_simp
  have v: "is_valid (ProviderSchema (\<lambda>scheme rest. True) [] (JObj ?kvs))"
    by code_simp
  have n: "js ''Groq'' \<noteq> []" "js ''GROQ_API_KEY'' \<noteq> []" "js ''a'' \<noteq> []" "js ''A'' \<noteq> []"
    by (simp_all add: js_def)
  from baseUrl_absent_empty_or_url [of "\<lambda>scheme rest. True" "[]" "[]" ?kvs ?pr] h v n
  show ?thesis by auto
qed

text \<open>
  Claim C8. Add Provider is total and appends exactly one provider at the end: its
  \<open>provider\<close>, \<open>apiKeyEnvVar\<close> and \<open>baseUrl\<close> are the empty string and its only model
  has empty names and \<open>supportsTools = false\<close>; the providers that were there, the output
  and the import text are unchanged.
\<close>

theorem appendProvider_appends:
  "providers (form (appendProvider st)) =
     providers (form st) @
       [\<lparr>provider = [], apiKeyEnvVar = [], baseUrl = Some [],
         models = [\<lparr>apiName = [], uiName = [], supportsTools = False\<rparr>]\<rparr>]
   \<and> take (length (providers (form st))) (providers (form (appendProvider st))) = providers (form st)
   \<and> length (providers (form (appendProvider st))) = Suc (length (providers (form st)))
   \<and> outputJson (appendProvider st) = outputJson st
   \<and> importJson (appendProvider st) = importJson st"
  by (simp add: appendProvider_def)

theorem appendProvider_appends_witness:
  "providers (form (appendProvider initial_state)) =
     [\<lparr>provider = js ''Groq'', apiKeyEnvVar = js ''GROQ_API_KEY'',
       baseUrl = Some (js ''https://api.groq.com/openai/v1''),
       models = [\<lparr>apiName = js ''llama3-8b-8192'', uiName = js ''Llama 3 8B'', supportsTools = True\<rparr>]\<rparr>,
      \<lparr>provider = [], apiKeyEnvVar = [], baseUrl = Some [],
       models = [\<lparr>apiName = [], uiName = [], supportsTools = False\<rparr>]\<rparr>]"
  using appendProvider_appends [of initial_state]
  by (simp add: initial_state_def defaultValues_def)

text \<open>
  Claim C9. The list schema accepts the empty array, and importing the text \<open>[]\<close> succeeds
  and leaves the form with no provider.
\<close>

theorem empty_configuration_is_valid:
  "ProvidersListSchema U p (JArr []) = Valid []
   \<and> safeParse (ProvidersListSchema U) (JArr []) = Inr []
   \<and> JSON_parse (js ''[]'') = Some (JArr [])
   \<and> handleImport U (setImportJson (js ''[]'') st) =
       ((setImportJson (js ''[]'') st)\<lparr>form := \<lparr>providers = []\<rparr>\<rparr>,
        [toast_success (js ''Import Successful!'') (js ''The form has been updated with your data.'')])"
proof -
  have a: "ProvidersListSchema U p (JArr []) = Valid []" for p
    by (simp add: ProvidersListSchema_def z_array_def)
  have b: "safeParse (ProvidersListSchema U) (JArr []) = Inr []"
    by (simp add: safeParse_def a)
  have c: "JSON_parse (js ''[]'') = Some (JArr [])"
    by code_simp
  show ?thesis
    by (simp add: a b c handleImport_parsed [OF c])
qed

theorem empty_configuration_is_valid_witness:
  "providers (form (fst (handleImport (\<lambda>scheme rest. True) (setImportJson (js ''[]'') initial_state)))) = []
   \<and> snd (handleImport (\<lambda>scheme rest. True) (setImportJson (js ''[]'') initial_state)) =
       [toast_success (js ''Import Successful!'') (js ''The form has been updated with your data.'')]"
  using empty_configuration_is_valid [of "\<lambda>scheme rest. True" "[]" initial_state]
  by simp

text \<open>
  Claim C10. When the import text is empty or blank, \<open>handleImport\<close> reports the empty-input
  error alone and leaves the state as it was. The check comes before the parser: such a text is
  not valid JSON, and yet neither the parse error nor the validation error is reported.
\<close>

theorem import_empty_input_reported_first:
  assumes "trim jsonText = []"
  shows "handleImport U (setImportJson jsonText st) =
           (setImportJson jsonText st,
            [toast_error (js ''Import field is empty.'')
               (js ''Please paste your JSON array to import.'')])
    \<and> JSON_parse jsonText = None
    \<and> form (fst (handleImport U (setImportJson jsonText st))) = form st
    \<and> outputJson (fst (handleImport U (setImportJson jsonText st))) = outputJson st
    \<and> js ''Import field is empty.'' \<noteq> js ''Invalid JSON format.''
    \<and> js ''Import field is empty.'' \<noteq> js ''Invalid JSON structure.''"
  using assms JSON_parse_blank [OF assms]
  by (simp add: handleImport_def setImportJson_def) (simp add: js_def)

theorem import_empty_input_reported_first_witness:
  "trim [] = []
   \<and> trim (js ''  '') = []
   \<and> handleImport (\<lambda>scheme rest. True) (setImportJson [] initial_state) =
       (setImportJson [] initial_state,
        [toast_error (js ''Import field is empty.'') (js ''Please paste your JSON array to import.'')])
   \<and> handleImport (\<lambda>scheme rest. True) (setImportJson (js ''  '') initial_state) =
       (setImportJson (js ''  '') initial_state,
        [toast_error (js ''Import field is empty.'') (js ''Please paste your JSON array to import.'')])
   \<and> JSON_parse (js ''  '') = None"
proof -
  have h1: "trim [] = []" by (simp add: trim_def)
  have h2: "trim (js ''  '') = []" by code_simp
  from import_empty_input_reported_first [OF h1, of "\<lambda>scheme rest. True" initial_state]
    import_empty_input_reported_first [OF h2, of "\<lambda>scheme rest. True" initial_state] h1 h2
  show ?thesis by simp
qed

end
